theory Spec2Isabelle
  imports Complex_Main "HOL-Library.Sublist"
begin

chapter \<open>Plan execution and recovery of the home-server agent\<close>

text \<open>
  A shallow embedding of the Python modules \<^verbatim>\<open>circuit_breaker.py\<close>, \<^verbatim>\<open>retry_utils.py\<close>,
  \<^verbatim>\<open>error_recovery.py\<close>, \<^verbatim>\<open>executor.py\<close> and \<^verbatim>\<open>rollback_manager.py\<close>. Objects are
  records, exceptions are the left summand of a result, mutation is state passing, and what
  the code asks of its surroundings (the clock, the processes it spawns, the console, the
  external classifier, the file system) is an explicit argument. The first part holds the
  definitions, module by module; the second part holds the properties, in the same order.
\<close>

section \<open>Circuit breaker (circuit\_breaker.py)\<close>

text \<open>
  \<^verbatim>\<open>CircuitState\<close> is the enum of the source. The wrapped function is a Python callable; a
  call of the breaker either ends with the breaker's own exception, with an
  \<^verbatim>\<open>AttributeError\<close> of the interpreter, or with whatever the wrapped function raised.
\<close>

datatype CircuitState = CLOSED | OPEN | HALF_OPEN

datatype 'e cb_error = CircuitBreakerOpen | AttributeError string | Raised 'e

text \<open>
  The instance attributes are the ones \<^verbatim>\<open>__init__\<close> assigns (the lock apart). Python
  attribute names that start with an underscore carry the prefix \<open>cb\<close> here:
  \<^verbatim>\<open>self._recovery_timeout\<close> is \<open>cb_recovery_timeout\<close>. Times are the seconds of
  \<^verbatim>\<open>time.time()\<close>.
\<close>

record CircuitBreaker =
  cb_failure_threshold :: int
  cb_recovery_timeout :: real
  half_open_max_calls :: int
  cb_name :: string
  cb_state :: CircuitState
  cb_failure_count :: int
  cb_success_count :: int
  cb_last_failure_time :: "real option"
  cb_half_open_calls :: int

definition CircuitBreaker_init :: "int \<Rightarrow> real \<Rightarrow> int \<Rightarrow> string \<Rightarrow> CircuitBreaker" where
  "CircuitBreaker_init failure_threshold recovery_timeout max_calls nm =
     \<lparr> cb_failure_threshold = failure_threshold,
       cb_recovery_timeout = recovery_timeout,
       half_open_max_calls = max_calls,
       cb_name = nm,
       cb_state = CLOSED,
       cb_failure_count = 0,
       cb_success_count = 0,
       cb_last_failure_time = None,
       cb_half_open_calls = 0 \<rparr>"

text \<open>
  Reading a timeout attribute by its Python name. \<^verbatim>\<open>__init__\<close> stores the timeout under
  \<^verbatim>\<open>_recovery_timeout\<close> and the class defines neither a property nor a class attribute
  called \<^verbatim>\<open>recovery_timeout\<close>, so every other name raises \<^verbatim>\<open>AttributeError\<close>.
\<close>

definition timeout_attr :: "CircuitBreaker \<Rightarrow> string \<Rightarrow> 'e cb_error + real" where
  "timeout_attr cb attr =
     (if attr = ''_recovery_timeout'' then Inr (cb_recovery_timeout cb)
      else Inl (AttributeError attr))"

text \<open>
  \<^verbatim>\<open>_should_attempt_reset\<close> reads \<^verbatim>\<open>self.recovery_timeout\<close>, and so does
  \<^verbatim>\<open>_get_retry_after\<close>; \<open>now\<close> is the value of \<^verbatim>\<open>time.time()\<close>.
\<close>

definition should_attempt_reset :: "CircuitBreaker \<Rightarrow> real \<Rightarrow> 'e cb_error + bool" where
  "should_attempt_reset cb now =
     (case cb_last_failure_time cb of
        None \<Rightarrow> Inr True
      | Some t \<Rightarrow>
          (case timeout_attr cb ''recovery_timeout'' of
             Inl e \<Rightarrow> Inl e
           | Inr timeout \<Rightarrow> Inr (now - t \<ge> timeout)))"

definition get_retry_after :: "CircuitBreaker \<Rightarrow> real \<Rightarrow> 'e cb_error + real" where
  "get_retry_after cb now =
     (case cb_last_failure_time cb of
        None \<Rightarrow> Inr 0
      | Some t \<Rightarrow>
          (case timeout_attr cb ''recovery_timeout'' of
             Inl e \<Rightarrow> Inl e
           | Inr timeout \<Rightarrow> Inr (max 0 (timeout - (now - t)))))"

definition reset :: "CircuitBreaker \<Rightarrow> CircuitBreaker" where
  "reset cb = cb\<lparr> cb_state := CLOSED, cb_failure_count := 0, cb_success_count := 0,
                  cb_half_open_calls := 0, cb_last_failure_time := None \<rparr>"

definition on_success :: "CircuitBreaker \<Rightarrow> CircuitBreaker" where
  "on_success cb =
     (if cb_state cb = HALF_OPEN then
        (let cb1 = cb\<lparr> cb_success_count := cb_success_count cb + 1 \<rparr>
         in if cb_success_count cb1 \<ge> half_open_max_calls cb1 then reset cb1 else cb1)
      else cb\<lparr> cb_failure_count := max 0 (cb_failure_count cb - 1) \<rparr>)"

definition on_failure :: "CircuitBreaker \<Rightarrow> real \<Rightarrow> CircuitBreaker" where
  "on_failure cb now =
     (let cb1 = cb\<lparr> cb_failure_count := cb_failure_count cb + 1,
                     cb_last_failure_time := Some now \<rparr>
      in if cb_state cb1 = HALF_OPEN then cb1\<lparr> cb_state := OPEN \<rparr>
         else if cb_failure_count cb1 \<ge> cb_failure_threshold cb1 then cb1\<lparr> cb_state := OPEN \<rparr>
         else cb1)"

text \<open>
  The first half of \<^verbatim>\<open>call\<close>, under the lock: the gate that decides whether the wrapped
  function runs. It returns the exception raised there, or the breaker as the gate leaves it.
\<close>

definition admit :: "CircuitBreaker \<Rightarrow> real \<Rightarrow> 'e cb_error + CircuitBreaker" where
  "admit cb now =
     (if cb_state cb = OPEN then
        (case should_attempt_reset cb now of
           Inl e \<Rightarrow> Inl e
         | Inr True \<Rightarrow> Inr (cb\<lparr> cb_state := HALF_OPEN, cb_half_open_calls := 0 \<rparr>)
         | Inr False \<Rightarrow>
             (case get_retry_after cb now of
                Inl e \<Rightarrow> Inl e
              | Inr secs \<Rightarrow> Inl CircuitBreakerOpen))
      else if cb_state cb = HALF_OPEN then
        (if cb_half_open_calls cb \<ge> half_open_max_calls cb then Inl CircuitBreakerOpen
         else Inr (cb\<lparr> cb_half_open_calls := cb_half_open_calls cb + 1 \<rparr>))
      else Inr cb)"

text \<open>
  \<^verbatim>\<open>call\<close>: \<open>func\<close> is what the wrapped function does when it is invoked (\<open>Inl\<close> the
  exception it raises), \<open>t_call\<close> the clock when the call enters the gate and \<open>t_done\<close> the
  clock when the wrapped function has failed. The result is the outcome for the caller, the
  breaker afterwards, and how many times the wrapped function was invoked.
\<close>

definition call :: "CircuitBreaker \<Rightarrow> real \<Rightarrow> real \<Rightarrow> ('e + 'a)
    \<Rightarrow> ('e cb_error + 'a) \<times> CircuitBreaker \<times> nat" where
  "call cb t_call t_done func =
     (case admit cb t_call of
        Inl e \<Rightarrow> (Inl e, cb, 0)
      | Inr cb1 \<Rightarrow>
          (case func of
             Inr v \<Rightarrow> (Inr v, on_success cb1, 1)
           | Inl e \<Rightarrow> (Inl (Raised e), on_failure cb1 t_done, 1)))"

text \<open>The breaker of the spec's scenario after its first failing call at time 0.\<close>

definition tripped :: CircuitBreaker where
  "tripped = fst (snd (call (CircuitBreaker_init 1 60 3 ''test'') 0 0
                        (Inl ''boom'' :: string + unit)))"

section \<open>Retry with backoff (retry\_utils.py)\<close>

text \<open>
  What leaves \<^verbatim>\<open>wrapper\<close> as an exception: the exception of the wrapped function, the
  \<^verbatim>\<open>TypeError\<close> of \<^verbatim>\<open>raise None\<close> after a loop that never ran, the
  \<^verbatim>\<open>OverflowError\<close> of a float power out of range, the \<^verbatim>\<open>ValueError\<close> of
  \<^verbatim>\<open>time.sleep\<close> on a negative length, or what the \<^verbatim>\<open>on_retry\<close> callback raised.
\<close>

datatype 'e retry_exn =
    Propagated 'e
  | RaiseNoneTypeError
  | PowOverflowError
  | SleepValueError
  | CallbackRaised 'e

text \<open>What the wrapper does to the outside, in order.\<close>

datatype 'e retry_event = Invoke nat | OnRetry nat 'e real | Sleep real

text \<open>
  The arguments of \<^verbatim>\<open>retry_with_backoff\<close>. \<open>exceptions\<close> is the test
  \<^verbatim>\<open>isinstance(e, exceptions)\<close> of the \<^verbatim>\<open>except\<close> clause; the callback returns
  \<open>Some x\<close> when it raises \<open>x\<close>.
\<close>

record 'e retry_params =
  max_retries :: int
  base_delay :: real
  max_delay :: real
  exponential_base :: real
  exceptions :: "'e \<Rightarrow> bool"
  on_retry :: "(nat \<Rightarrow> 'e \<Rightarrow> real \<Rightarrow> 'e option) option"

text \<open>
  \<^verbatim>\<open>exponential_base ** attempt\<close> on a float: Python raises \<^verbatim>\<open>OverflowError\<close> when the
  result leaves the range of a double.
\<close>

definition float_pow :: "real \<Rightarrow> nat \<Rightarrow> 'e retry_exn + real" where
  "float_pow b n = (if \<bar>b ^ n\<bar> < 2 ^ 1024 then Inr (b ^ n) else Inl PowOverflowError)"

definition raise_last :: "'e option \<Rightarrow> 'e retry_exn" where
  "raise_last last_exception =
     (case last_exception of None \<Rightarrow> RaiseNoneTypeError | Some e \<Rightarrow> Propagated e)"

definition run_on_retry :: "'e retry_params \<Rightarrow> nat \<Rightarrow> 'e \<Rightarrow> real \<Rightarrow> 'e option" where
  "run_on_retry p attempt e sleep_time =
     (case on_retry p of None \<Rightarrow> None | Some callback \<Rightarrow> callback attempt e sleep_time)"

definition callback_events :: "'e retry_params \<Rightarrow> nat \<Rightarrow> 'e \<Rightarrow> real \<Rightarrow> 'e retry_event list" where
  "callback_events p attempt e sleep_time =
     (case on_retry p of None \<Rightarrow> [] | Some callback \<Rightarrow> [OnRetry attempt e sleep_time])"

text \<open>
  The \<^verbatim>\<open>for attempt in range(max_retries + 1)\<close> loop with \<open>k\<close> iterations left.
  \<open>func n\<close> is the outcome of the invocation number \<open>n\<close> of the wrapped function (\<open>Inl\<close>
  the exception it raises) and \<open>rnd n\<close> the value of \<^verbatim>\<open>random.random()\<close> behind the
  \<^verbatim>\<open>random.uniform\<close> of that iteration. The trace \<open>tr\<close> collects the events.
\<close>

fun retry_loop :: "'e retry_params \<Rightarrow> (nat \<Rightarrow> real) \<Rightarrow> (nat \<Rightarrow> 'e + 'a) \<Rightarrow> nat \<Rightarrow> nat
    \<Rightarrow> 'e option \<Rightarrow> 'e retry_event list \<Rightarrow> ('e retry_exn + 'a) \<times> 'e retry_event list" where
  "retry_loop p rnd func 0 attempt last_exception tr = (Inl (raise_last last_exception), tr)"
| "retry_loop p rnd func (Suc k) attempt last_exception tr =
     (case func attempt of
        Inr v \<Rightarrow> (Inr v, tr @ [Invoke attempt])
      | Inl e \<Rightarrow>
          if \<not> exceptions p e then (Inl (Propagated e), tr @ [Invoke attempt])
          else if int attempt \<ge> max_retries p then (Inl (Propagated e), tr @ [Invoke attempt])
          else
            (case float_pow (exponential_base p) attempt of
               Inl x \<Rightarrow> (Inl x, tr @ [Invoke attempt])
             | Inr pw \<Rightarrow>
                 (let delay = min (base_delay p * pw) (max_delay p);
                      jitter = rnd attempt * (delay * 0.1);
                      sleep_time = delay + jitter
                  in case run_on_retry p (attempt + 1) e sleep_time of
                       Some x \<Rightarrow>
                         (Inl (CallbackRaised x),
                          tr @ [Invoke attempt] @ callback_events p (attempt + 1) e sleep_time)
                     | None \<Rightarrow>
                         if sleep_time < 0
                         then (Inl SleepValueError,
                               tr @ [Invoke attempt] @ callback_events p (attempt + 1) e sleep_time)
                         else retry_loop p rnd func k (Suc attempt) (Some e)
                                (tr @ [Invoke attempt]
                                    @ callback_events p (attempt + 1) e sleep_time
                                    @ [Sleep sleep_time]))))"

definition wrapper :: "'e retry_params \<Rightarrow> (nat \<Rightarrow> real) \<Rightarrow> (nat \<Rightarrow> 'e + 'a)
    \<Rightarrow> ('e retry_exn + 'a) \<times> 'e retry_event list" where
  "wrapper p rnd func = retry_loop p rnd func (nat (max_retries p + 1)) 0 None []"

fun is_Invoke :: "'e retry_event \<Rightarrow> bool" where
  "is_Invoke (Invoke n) = True"
| "is_Invoke ev = False"

fun is_Sleep :: "'e retry_event \<Rightarrow> bool" where
  "is_Sleep (Sleep d) = True"
| "is_Sleep ev = False"

definition invocations :: "'e retry_event list \<Rightarrow> nat" where
  "invocations tr = length (filter is_Invoke tr)"

text \<open>A call that fails on every invocation with an exception of a retriable kind.\<close>

definition always_fails_retriably :: "'e retry_params \<Rightarrow> (nat \<Rightarrow> 'e + 'a) \<Rightarrow> bool" where
  "always_fails_retriably p func = (\<forall>n. case func n of Inl e \<Rightarrow> exceptions p e | Inr v \<Rightarrow> False)"

text \<open>
  A configuration whose delays can be computed and slept: a count of retries, delays that are
  not negative, a power within the range of a double, a callback that returns, and
  \<^verbatim>\<open>random.random()\<close> in its range.
\<close>

definition sane_params :: "'e retry_params \<Rightarrow> (nat \<Rightarrow> real) \<Rightarrow> bool" where
  "sane_params p rnd =
     (0 \<le> max_retries p \<and> 0 \<le> base_delay p \<and> 0 \<le> max_delay p
      \<and> 0 \<le> exponential_base p \<and> exponential_base p ^ nat (max_retries p) < 2 ^ 1024
      \<and> (\<forall>n. 0 \<le> rnd n)
      \<and> (\<forall>n e d. run_on_retry p n e d = None))"

text \<open>
  The spec's example: \<^verbatim>\<open>max_retries=2\<close> with the defaults of the other arguments, retrying
  on \<^verbatim>\<open>ValueError\<close> only. An exception is its class name and the number of the invocation
  that raised it.
\<close>

definition retry_twice :: "(string \<times> nat) retry_params" where
  "retry_twice = \<lparr> max_retries = 2, base_delay = 1, max_delay = 60, exponential_base = 2,
       exceptions = (\<lambda>e. fst e = ''ValueError''), on_retry = None \<rparr>"

definition raising :: "string \<Rightarrow> nat \<Rightarrow> (string \<times> nat) + unit" where
  "raising cls n = Inl (cls, n)"

section \<open>Python strings\<close>

text \<open>
  A Python \<^verbatim>\<open>str\<close> is a list of characters. \<^verbatim>\<open>s.lower()\<close> is modelled on the ASCII
  letters, which is where the patterns of the source live; \<^verbatim>\<open>p in s\<close> on strings is the
  contiguous-substring test (\<^const>\<open>sublist\<close>); \<^verbatim>\<open>s.strip()\<close> removes ASCII white space
  from both ends.
\<close>

definition lower_char :: "char \<Rightarrow> char" where
  "lower_char c =
     (case map_of (zip ''ABCDEFGHIJKLMNOPQRSTUVWXYZ'' ''abcdefghijklmnopqrstuvwxyz'') c of
        Some l \<Rightarrow> l
      | None \<Rightarrow> c)"

definition lower :: "string \<Rightarrow> string" where
  "lower s = map lower_char s"

definition str_in :: "string \<Rightarrow> string \<Rightarrow> bool" where
  "str_in p s = sublist p s"

definition is_space :: "char \<Rightarrow> bool" where
  "is_space c = (c \<in> set [CHR '' '', CHR 0x09, CHR 0x0A, CHR 0x0B, CHR 0x0C, CHR 0x0D])"

definition strip :: "string \<Rightarrow> string" where
  "strip s = rev (dropWhile is_space (rev (dropWhile is_space s)))"

text \<open>\<^verbatim>\<open>sep.join(xs)\<close>.\<close>

fun join :: "string \<Rightarrow> string list \<Rightarrow> string" where
  "join sep [] = []"
| "join sep [x] = x"
| "join sep (x # y # ys) = x @ sep @ join sep (y # ys)"

section \<open>Error recovery (error\_recovery.py)\<close>

text \<open>
  The analysis is a Python dictionary, and what \<^verbatim>\<open>json.loads\<close> returns for the reply of the
  external classifier is any JSON value. Dictionaries keep their insertion order.
\<close>

datatype json =
    JNull
  | JBool bool
  | JNum int
  | JStr string
  | JArr "json list"
  | JObj "(string \<times> json) list"

text \<open>
  The Python exceptions of the analyzer and of the engine; \<open>NoAttributeGet\<close> is the
  \<^verbatim>\<open>AttributeError\<close> of \<^verbatim>\<open>.get\<close> on a value that is not a dictionary.
\<close>

datatype py_exn = TypeError | ValueError | KeyError | ApiError | EOFError | NameError
  | NoAttributeGet

text \<open>\<^verbatim>\<open>d[k] = v\<close> on a dictionary: an existing key keeps its place.\<close>

fun dict_set :: "(string \<times> 'v) list \<Rightarrow> string \<Rightarrow> 'v \<Rightarrow> (string \<times> 'v) list" where
  "dict_set [] k v = [(k, v)]"
| "dict_set ((k', v') # kvs) k v =
     (if k' = k then (k, v) # kvs else (k', v') # dict_set kvs k v)"

text \<open>\<^verbatim>\<open>d.get(k)\<close> on the value an analysis is; \<open>None\<close> when the key is absent.\<close>

fun dict_get :: "json \<Rightarrow> string \<Rightarrow> json option" where
  "dict_get (JObj kvs) k = map_of kvs k"
| "dict_get v k = None"

text \<open>
  \<^verbatim>\<open>k in result\<close>, \<^verbatim>\<open>result[k]\<close> and \<^verbatim>\<open>result[k] = v\<close> for a string \<open>k\<close>, on whatever
  \<^verbatim>\<open>json.loads\<close> returned: membership is a key test on a dictionary, an element test on a
  list, a substring test on a string, and a \<^verbatim>\<open>TypeError\<close> on numbers, booleans and
  \<^verbatim>\<open>None\<close>; indexing with a string works on a dictionary only.
\<close>

fun py_in :: "string \<Rightarrow> json \<Rightarrow> py_exn + bool" where
  "py_in k (JObj kvs) = Inr (k \<in> set (map fst kvs))"
| "py_in k (JArr xs) = Inr (JStr k \<in> set xs)"
| "py_in k (JStr s) = Inr (str_in k s)"
| "py_in k v = Inl TypeError"

fun py_getitem :: "json \<Rightarrow> string \<Rightarrow> py_exn + json" where
  "py_getitem (JObj kvs) k = (case map_of kvs k of None \<Rightarrow> Inl KeyError | Some v \<Rightarrow> Inr v)"
| "py_getitem v k = Inl TypeError"

fun py_setitem :: "json \<Rightarrow> string \<Rightarrow> json \<Rightarrow> py_exn + json" where
  "py_setitem (JObj kvs) k v = Inr (JObj (dict_set kvs k v))"
| "py_setitem r k v = Inl TypeError"

text \<open>\<^verbatim>\<open>self.common_fixes\<close>: pattern, fix type, suggestion, in the order of the literal.\<close>

definition common_fixes :: "(string \<times> string \<times> string) list" where
  "common_fixes =
     [(''command not found'', ''install_dependency'', ''Install the missing package with apt''),
      (''permission denied'', ''modify_command'', ''Try running with sudo''),
      (''could not resolve host'', ''retry'', ''Check internet connection and retry''),
      (''port is already allocated'', ''modify_command'',
         ''Stop the existing service or use a different port''),
      (''bind: address already in use'', ''modify_command'',
         ''Port in use - check with: sudo lsof -i :PORT''),
      (''docker: permission denied'', ''modify_command'',
         ''User needs docker group. Run: sudo usermod -aG docker $USER && newgrp docker'')]"

definition diagnosis :: "string \<Rightarrow> string \<Rightarrow> string \<Rightarrow> string \<Rightarrow> string list \<Rightarrow> bool \<Rightarrow> string
    \<Rightarrow> json" where
  "diagnosis analysis severity suggested_fix fix_type alternative_fixes can_auto_retry explanation =
     JObj [(''analysis'', JStr analysis),
           (''severity'', JStr severity),
           (''suggested_fix'', JStr suggested_fix),
           (''fix_type'', JStr fix_type),
           (''alternative_fixes'', JArr (map JStr alternative_fixes)),
           (''can_auto_retry'', JBool can_auto_retry),
           (''explanation_for_user'', JStr explanation)]"

text \<open>The loop over \<^verbatim>\<open>self.common_fixes.items()\<close>: the first pattern found decides.\<close>

fun match_common :: "(string \<times> string \<times> string) list \<Rightarrow> string \<Rightarrow> json option" where
  "match_common [] error_text = None"
| "match_common ((pattern, fix_type, suggestion) # fixes) error_text =
     (if str_in pattern error_text
      then Some (diagnosis (''Detected '' @ [CHR 0x27] @ pattern @ [CHR 0x27] @ '' error'')
                   ''medium'' suggestion fix_type []
                   (fix_type \<in> set [''retry'', ''modify_command''])
                   (''The system couldn'' @ [CHR 0x27] @ ''t run the command because '' @ pattern
                      @ ''. '' @ suggestion @ ''.''))
      else match_common fixes error_text)"

definition analyze_docker_error :: "string \<Rightarrow> json" where
  "analyze_docker_error error_text =
     (if str_in ''cannot connect'' error_text then
        diagnosis ''Docker daemon not running'' ''high'' ''sudo systemctl start docker''
          ''modify_command'' [''sudo service docker start''] True
          (''The Docker service isn'' @ [CHR 0x27] @ ''t running. I can try to start it.'')
      else if str_in ''image not found'' error_text \<or> str_in ''pull access denied'' error_text then
        diagnosis ''Docker image not found or access denied'' ''medium''
          ''Check image name and try again'' ''retry'' [''Use alternative image''] True
          ''The Docker image could not be downloaded. Let me retry.''
      else if str_in ''container name already in use'' error_text then
        diagnosis ''Container with this name already exists'' ''low''
          ''docker rm -f CONTAINER_NAME'' ''modify_command'' [''Use different container name''] True
          ''A container with this name already exists. I can remove it.''
      else
        diagnosis ''Docker error occurred'' ''medium''
          ''Check Docker status: sudo systemctl status docker'' ''manual_intervention'' [] False
          ''A Docker error occurred. Check the Docker service status.'')"

definition analyze_apt_error :: "string \<Rightarrow> json" where
  "analyze_apt_error error_text =
     (if str_in ''unable to locate package'' error_text then
        diagnosis ''Package not found in repository'' ''medium'' ''sudo apt update''
          ''modify_command'' [''Enable universe/multiverse repositories''] True
          ''The package was not found. Updating package lists may fix this.''
      else if str_in ''could not get lock'' error_text then
        diagnosis ''Another package manager is running'' ''medium''
          ''Wait for other package manager to complete'' ''retry''
          [''Kill other apt process: sudo killall apt''] True
          ''Another package installation is in progress. Let me wait and retry.''
      else if str_in ''broken packages'' error_text then
        diagnosis ''Package dependencies are broken'' ''high'' ''sudo apt --fix-broken install''
          ''modify_command'' [''sudo dpkg --configure -a''] True
          ''Package dependencies are broken. I can try to fix them.''
      else
        diagnosis ''Package manager error occurred'' ''medium''
          ''Check apt status and try again'' ''manual_intervention'' [] False
          ''A package manager error occurred. You may need to fix it manually.'')"

definition fallback_analyze :: "string \<Rightarrow> string \<Rightarrow> string \<Rightarrow> json" where
  "fallback_analyze command stdout stderr =
     (let error_text = lower (stderr @ stdout) in
      case match_common common_fixes error_text of
        Some d \<Rightarrow> d
      | None \<Rightarrow>
          if str_in ''docker'' (lower command) then analyze_docker_error error_text
          else if (str_in ''53'' command \<or> str_in ''adguard'' (lower command))
                  \<and> (str_in ''bind'' error_text \<or> str_in ''address already in use'' error_text) then
            diagnosis ''Port 53 is in use by systemd-resolved'' ''medium''
              ''sudo systemctl stop systemd-resolved && sudo systemctl disable systemd-resolved''
              ''modify_command'' [''Configure AdGuard on different port''] True
              ''Another service is using the DNS port. I can stop it to free up the port.''
          else if str_in ''connection refused'' error_text
                  \<or> str_in ''connection timed out'' error_text then
            diagnosis ''Network connectivity issue'' ''medium''
              ''Check internet connection and retry'' ''retry'' [''Check firewall settings''] True
              ''There was a network problem. Let me try again.''
          else if str_in ''no space left'' error_text \<or> str_in ''disk full'' error_text then
            diagnosis ''Disk space exhausted'' ''critical'' ''Free up disk space: df -h''
              ''manual_intervention'' [''Clean up temporary files'', ''Remove old Docker images'']
              False ''The disk is full. You need to free up space before continuing.''
          else if str_in ''apt'' (lower command) then analyze_apt_error error_text
          else
            diagnosis ''Unknown error occurred'' ''medium'' ''Check error logs for details''
              ''manual_intervention'' [''Skip this step and continue'', ''Rollback and retry'']
              False
              (''Something went wrong: '' @ take 100 stderr
                 @ ''. You may need to fix this manually.''))"

text \<open>
  The external classifier. \<open>create\<close> is \<^verbatim>\<open>client.chat.completions.create\<close> followed by
  \<^verbatim>\<open>response.choices[0].message.content\<close>, on the truncated command, outputs and step
  context that the prompt is built from: it raises, or yields the content (possibly
  \<^verbatim>\<open>None\<close>). \<open>json_loads\<close> is \<^verbatim>\<open>json.loads\<close>, \<open>None\<close> when it raises
  \<^verbatim>\<open>JSONDecodeError\<close>.
\<close>

datatype gpt_reply = ApiRaises | Content "string option"

record classifier =
  create :: "string \<times> string \<times> string \<times> json \<Rightarrow> gpt_reply"
  json_loads :: "string \<Rightarrow> json option"

text \<open>One \<^verbatim>\<open>if k not in result: result[k] = default\<close> of the validation block.\<close>

definition backfill :: "string \<Rightarrow> json \<Rightarrow> json \<Rightarrow> py_exn + json" where
  "backfill k dflt result =
     (case py_in k result of
        Inl e \<Rightarrow> Inl e
      | Inr True \<Rightarrow> Inr result
      | Inr False \<Rightarrow> py_setitem result k dflt)"

definition backfill_explanation :: "json \<Rightarrow> py_exn + json" where
  "backfill_explanation result =
     (case py_in ''explanation_for_user'' result of
        Inl e \<Rightarrow> Inl e
      | Inr True \<Rightarrow> Inr result
      | Inr False \<Rightarrow>
          (case py_getitem result ''analysis'' of
             Inl e \<Rightarrow> Inl e
           | Inr a \<Rightarrow> py_setitem result ''explanation_for_user'' a))"

definition validate_fields :: "json \<Rightarrow> py_exn + json" where
  "validate_fields result =
     (case backfill ''analysis'' (JStr ''Unknown error occurred'') result of
        Inl e \<Rightarrow> Inl e
      | Inr r1 \<Rightarrow>
     (case backfill ''severity'' (JStr ''medium'') r1 of
        Inl e \<Rightarrow> Inl e
      | Inr r2 \<Rightarrow>
     (case backfill ''suggested_fix'' (JStr ''Check error logs for details'') r2 of
        Inl e \<Rightarrow> Inl e
      | Inr r3 \<Rightarrow>
     (case backfill ''fix_type'' (JStr ''manual_intervention'') r3 of
        Inl e \<Rightarrow> Inl e
      | Inr r4 \<Rightarrow>
     (case backfill ''can_auto_retry'' (JBool False) r4 of
        Inl e \<Rightarrow> Inl e
      | Inr r5 \<Rightarrow> backfill_explanation r5)))))"

text \<open>
  The handler of \<^verbatim>\<open>JSONDecodeError\<close>: the fallback analysis with a note appended to its
  \<^verbatim>\<open>analysis\<close> text.
\<close>

definition parsing_failed :: "json \<Rightarrow> py_exn + json" where
  "parsing_failed result =
     (case py_getitem result ''analysis'' of
        Inl e \<Rightarrow> Inl e
      | Inr (JStr a) \<Rightarrow> py_setitem result ''analysis'' (JStr (a @ '' (GPT parsing failed)''))
      | Inr v \<Rightarrow> Inl TypeError)"

definition gpt_analyze :: "classifier option \<Rightarrow> string \<Rightarrow> string \<Rightarrow> string \<Rightarrow> json
    \<Rightarrow> py_exn + json" where
  "gpt_analyze client command stdout stderr step_context =
     (case client of
        None \<Rightarrow> Inr (fallback_analyze command stdout stderr)
      | Some cl \<Rightarrow>
          (case create cl (take 2000 command, take 2000 stdout, take 2000 stderr, step_context) of
             ApiRaises \<Rightarrow> Inl ApiError
           | Content None \<Rightarrow> Inl ValueError
           | Content (Some content) \<Rightarrow>
               if content = [] then Inl ValueError
               else (case json_loads cl content of
                       None \<Rightarrow> parsing_failed (fallback_analyze command stdout stderr)
                     | Some result \<Rightarrow> validate_fields result)))"

fun is_dict :: "json \<Rightarrow> bool" where
  "is_dict (JObj kvs) = True"
| "is_dict v = False"

definition MAX_LENGTH :: nat where
  "MAX_LENGTH = 5000"

definition analyze_error :: "classifier option \<Rightarrow> string \<Rightarrow> string \<Rightarrow> string \<Rightarrow> json
    \<Rightarrow> py_exn + json" where
  "analyze_error client command0 stdout0 stderr0 step_context0 =
     (let step_context = (if is_dict step_context0 then step_context0 else JObj []);
          command = take MAX_LENGTH command0;
          stdout = take MAX_LENGTH stdout0;
          stderr = take MAX_LENGTH stderr0
      in case client of
           None \<Rightarrow> Inr (fallback_analyze command stdout stderr)
         | Some cl \<Rightarrow>
             (case gpt_analyze client command stdout stderr step_context of
                Inr result \<Rightarrow> Inr result
              | Inl e \<Rightarrow> Inr (fallback_analyze command stdout stderr)))"

text \<open>
  A Diagnosis is a dictionary that holds the fields the validation block guarantees. The
  text the analysis works on is the lowered, truncated \<^verbatim>\<open>stderr + stdout\<close>.
\<close>

definition required_fields :: "string list" where
  "required_fields = [''analysis'', ''severity'', ''suggested_fix'', ''fix_type'',
                      ''can_auto_retry'', ''explanation_for_user'']"

fun is_diagnosis :: "json \<Rightarrow> bool" where
  "is_diagnosis (JObj kvs) = list_all (\<lambda>k. k \<in> set (map fst kvs)) required_fields"
| "is_diagnosis v = False"

definition error_text_of :: "string \<Rightarrow> string \<Rightarrow> string" where
  "error_text_of stdout stderr = lower (take MAX_LENGTH stderr @ take MAX_LENGTH stdout)"

text \<open>A reply that is valid JSON but a list: the names of the six fields.\<close>

definition list_reply :: classifier where
  "list_reply = \<lparr> create = (\<lambda>prompt. Content (Some ''[...]'')),
                   json_loads = (\<lambda>content. Some (JArr (map JStr required_fields))) \<rparr>"

text \<open>A field of what \<^verbatim>\<open>analyze_error\<close> returned; \<open>None\<close> when there is none to read.\<close>

definition field :: "py_exn + json \<Rightarrow> string \<Rightarrow> json option" where
  "field r k = (case r of Inl e \<Rightarrow> None | Inr d \<Rightarrow> dict_get d k)"

text \<open>No pattern of the table occurs in the text.\<close>

definition no_table_pattern :: "string \<Rightarrow> bool" where
  "no_table_pattern error_text = list_all (\<lambda>(p, t, s). \<not> str_in p error_text) common_fixes"

text \<open>The rule for port 53 applies to the command and the text.\<close>

definition port53_rule :: "string \<Rightarrow> string \<Rightarrow> bool" where
  "port53_rule command error_text =
     ((str_in ''53'' command \<or> str_in ''adguard'' (lower command))
      \<and> (str_in ''bind'' error_text \<or> str_in ''address already in use'' error_text))"

section \<open>State store (executor.py, StateManager)\<close>

text \<open>
  \<^verbatim>\<open>ExecutionResult\<close> is the dataclass of the source; its fields carry the prefix \<open>res\<close>.
\<close>

record ExecutionResult =
  res_success :: bool
  res_returncode :: int
  res_stdout :: string
  res_stderr :: string
  res_duration_ms :: int
  res_timestamp :: string

text \<open>
  The two tables of \<^verbatim>\<open>_init_db\<close>. A table is the list of its rows in insertion order.
  \<^verbatim>\<open>execution_state\<close> has no constraint beyond its row id; \<^verbatim>\<open>sessions\<close> has
  \<^verbatim>\<open>session_id TEXT UNIQUE\<close>, and the defaults \<^verbatim>\<open>current_step INTEGER DEFAULT 0\<close> and
  \<^verbatim>\<open>status TEXT DEFAULT 'in_progress'\<close>. The JSON columns hold the value that was dumped.
\<close>

record state_row =
  row_session_id :: string
  row_step_number :: int
  row_step_name :: string
  row_status :: string
  row_result :: "ExecutionResult option"
  row_timestamp :: string

record session_row =
  ses_id :: nat
  ses_session_id :: string
  ses_hardware_profile :: json
  ses_user_requirements :: json
  ses_plan_json :: json
  ses_current_step :: int
  ses_status :: string
  ses_created_at :: string
  ses_updated_at :: string

record database =
  execution_state :: "state_row list"
  sessions :: "session_row list"

definition init_db :: database where
  "init_db = \<lparr> execution_state = [], sessions = [] \<rparr>"

text \<open>The row id SQLite gives a new row: one more than the largest in use.\<close>

definition new_rowid :: "session_row list \<Rightarrow> nat" where
  "new_rowid rows = Suc (fold max (map ses_id rows) 0)"

text \<open>
  \<^verbatim>\<open>create_session\<close>: \<^verbatim>\<open>INSERT OR REPLACE INTO sessions (session_id, hardware_profile,
  user_requirements, plan_json, created_at, updated_at)\<close>. REPLACE deletes the rows that
  violate the uniqueness of \<^verbatim>\<open>session_id\<close> and inserts the new row; the columns the
  statement does not name take their defaults. \<open>now\<close> is \<^verbatim>\<open>datetime.now().isoformat()\<close>.
\<close>

definition create_session :: "database \<Rightarrow> string \<Rightarrow> json \<Rightarrow> json \<Rightarrow> json \<Rightarrow> string
    \<Rightarrow> string \<times> database" where
  "create_session d session_id hardware requirements plan now =
     (session_id,
      d\<lparr> sessions :=
           filter (\<lambda>r. ses_session_id r \<noteq> session_id) (sessions d)
           @ [\<lparr> ses_id = new_rowid (sessions d),
                ses_session_id = session_id,
                ses_hardware_profile = hardware,
                ses_user_requirements = requirements,
                ses_plan_json = plan,
                ses_current_step = 0,
                ses_status = ''in_progress'',
                ses_created_at = now,
                ses_updated_at = now \<rparr>] \<rparr>)"

text \<open>\<^verbatim>\<open>get_session\<close>: the first row of the session, if any.\<close>

definition get_session :: "database \<Rightarrow> string \<Rightarrow> session_row option" where
  "get_session d session_id = find (\<lambda>r. ses_session_id r = session_id) (sessions d)"

text \<open>
  \<^verbatim>\<open>update_step\<close>: one \<^verbatim>\<open>INSERT INTO execution_state\<close> and one
  \<^verbatim>\<open>UPDATE sessions SET current_step = ?, updated_at = ? WHERE session_id = ?\<close>.
\<close>

definition update_step :: "database \<Rightarrow> string \<Rightarrow> int \<Rightarrow> string \<Rightarrow> string
    \<Rightarrow> ExecutionResult option \<Rightarrow> string \<Rightarrow> database" where
  "update_step d session_id step_number step_name status result now =
     d\<lparr> execution_state := execution_state d
           @ [\<lparr> row_session_id = session_id, row_step_number = step_number,
                row_step_name = step_name, row_status = status, row_result = result,
                row_timestamp = now \<rparr>],
        sessions := map (\<lambda>r. if ses_session_id r = session_id
                               then r\<lparr> ses_current_step := step_number, ses_updated_at := now \<rparr>
                               else r) (sessions d) \<rparr>"

text \<open>
  \<^verbatim>\<open>get_completed_steps\<close>: \<^verbatim>\<open>SELECT DISTINCT step_number ... WHERE session_id = ? AND
  status = 'completed'\<close>.
\<close>

definition get_completed_steps :: "database \<Rightarrow> string \<Rightarrow> int list" where
  "get_completed_steps d session_id =
     remdups (map row_step_number
       (filter (\<lambda>r. row_session_id r = session_id \<and> row_status r = ''completed'')
          (execution_state d)))"

definition complete_session :: "database \<Rightarrow> string \<Rightarrow> bool \<Rightarrow> string \<Rightarrow> database" where
  "complete_session d session_id success now =
     d\<lparr> sessions := map (\<lambda>r. if ses_session_id r = session_id
                               then r\<lparr> ses_status := (if success then ''completed'' else ''failed''),
                                       ses_updated_at := now \<rparr>
                               else r) (sessions d) \<rparr>"

text \<open>A store in which session \<open>s1\<close> has advanced to step 2 and failed.\<close>

definition used_db :: database where
  "used_db =
     complete_session
       (update_step
          (update_step
             (snd (create_session init_db ''s1'' (JObj []) (JObj []) (JObj []) ''t0''))
             ''s1'' 1 ''one'' ''completed'' None ''t1'')
          ''s1'' 2 ''two'' ''failed'' None ''t2'')
       ''s1'' False ''t3''"

section \<open>Execution engine (executor.py, ExecutionEngine)\<close>

text \<open>
  A step of the plan is a dictionary; the engine reads it with \<^verbatim>\<open>step.get\<close>. A key that may
  be absent is an option; \<^verbatim>\<open>commands\<close> and \<^verbatim>\<open>requires_sudo\<close> are read with the defaults
  \<^verbatim>\<open>[]\<close> and \<^verbatim>\<open>False\<close>. The fields carry the prefix \<open>st\<close>.
\<close>

record PlanStep =
  st_step_number :: "int option"
  st_name :: "string option"
  st_description :: "string option"
  st_command :: "string option"
  st_commands :: "string list"
  st_requires_sudo :: bool
  st_check_command :: "string option"

text \<open>
  What \<^verbatim>\<open>subprocess.run\<close> is given (a shell line or an argument vector, with the timeout)
  and how it ends: the process exits with a return code and its two outputs, or the call
  raises \<^verbatim>\<open>TimeoutExpired\<close>, \<^verbatim>\<open>OSError\<close> or another exception.
\<close>

datatype spawn = Shell string int | Argv "string list" int

datatype proc_outcome =
    Exited int string string
  | TimeoutExpired
  | OSError string
  | OtherError string

text \<open>
  The world the engine acts on: the processes spawned so far (oldest first), the lines that
  \<^verbatim>\<open>input()\<close> will still return, and the state store. \<open>entered\<close> is an observation added
  by the model: the step numbers for which \<^verbatim>\<open>execute_plan\<close> has called
  \<^verbatim>\<open>execute_step\<close>, in order.
\<close>

record world =
  spawned :: "spawn list"
  stdin :: "string list"
  store :: database
  entered :: "int list"

text \<open>
  What the engine does not decide: how a process ends and how long it took, given the
  processes spawned before it; what \<^verbatim>\<open>datetime.now().isoformat()\<close> returns, given all that
  has happened; and the classifier client that \<^verbatim>\<open>ErrorRecoveryEngine\<close> builds from the
  environment variable with the API key (\<open>None\<close> without a key).
\<close>

record environment =
  proc :: "spawn list \<Rightarrow> spawn \<Rightarrow> proc_outcome \<times> int"
  clock :: "world \<Rightarrow> string"
  recovery_client :: "classifier option"

record ExecutionEngine =
  dry_run :: bool
  auto_approve :: bool
  eng_session_id :: "string option"

definition DANGEROUS_PATTERNS :: "string list" where
  "DANGEROUS_PATTERNS =
     [''rm -rf /'',
      ''rm -rf /*'',
      ''mkfs'',
      ''dd if=/dev/zero'',
      '':(){ :|:& };:'',
      ''> /dev/sda'',
      ''>/dev/sda'',
      ''mv /* /dev/null'',
      ''chmod -R 777 /'',
      ''chmod -R 777 /*'',
      ''mkfs.ext4 /dev/sda'',
      ''mkfs.xfs /dev/sda'',
      ''mkfs.btrfs /dev/sda'',
      ''dd of=/dev/sda'',
      ''dd if=/dev/random of=/dev/sda'',
      ''dd if=/dev/urandom of=/dev/sda'',
      ''shred /dev/sda'',
      ''echo '' @ [CHR 0x22] @ ''* * * * * rm -rf /'' @ [CHR 0x22] @ '' | crontab'']"

text \<open>
  \<^verbatim>\<open>validate_command\<close>: the patterns are compared, as they are written, with the lowered
  command.
\<close>

definition validate_command :: "string \<Rightarrow> bool \<times> string" where
  "validate_command command =
     (if command = [] \<or> strip command = [] then (False, ''Empty command'')
      else (case find (\<lambda>pattern. str_in pattern (lower command)) DANGEROUS_PATTERNS of
              Some pattern \<Rightarrow> (False, ''Command contains dangerous pattern: '' @ pattern)
            | None \<Rightarrow> (True, ''OK'')))"

text \<open>Decimal digits of an integer, for the messages that print one.\<close>

fun str_nat :: "nat \<Rightarrow> string" where
  "str_nat n = (if n < 10 then [''0123456789'' ! n]
                else str_nat (n div 10) @ [''0123456789'' ! (n mod 10)])"

declare str_nat.simps [simp del]

definition str_int :: "int \<Rightarrow> string" where
  "str_int i = (if i < 0 then ''-'' @ str_nat (nat (- i)) else str_nat (nat i))"

definition failure :: "string \<Rightarrow> int \<Rightarrow> string \<Rightarrow> ExecutionResult" where
  "failure err duration ts =
     \<lparr> res_success = False, res_returncode = - 1, res_stdout = [], res_stderr = err,
       res_duration_ms = duration, res_timestamp = ts \<rparr>"

fun spawn_timeout :: "spawn \<Rightarrow> int" where
  "spawn_timeout (Shell line t) = t"
| "spawn_timeout (Argv args t) = t"

text \<open>The \<^verbatim>\<open>try\<close> block of \<^verbatim>\<open>_run_command\<close>: the process is spawned and its end is captured.\<close>

definition spawn_process :: "environment \<Rightarrow> spawn \<Rightarrow> world \<Rightarrow> ExecutionResult \<times> world" where
  "spawn_process env sp w =
     (let outcome = fst (proc env (spawned w) sp);
          duration = snd (proc env (spawned w) sp);
          w' = w\<lparr> spawned := spawned w @ [sp] \<rparr>;
          ts = clock env w'
      in (case outcome of
            Exited rc out err \<Rightarrow>
              \<lparr> res_success = (rc = 0), res_returncode = rc, res_stdout = out, res_stderr = err,
                res_duration_ms = duration, res_timestamp = ts \<rparr>
          | TimeoutExpired \<Rightarrow>
              failure (''Command timed out after '' @ str_int (spawn_timeout sp) @ ''s'') duration ts
          | OSError e \<Rightarrow> failure (''OS error: '' @ e) duration ts
          | OtherError e \<Rightarrow> failure (''Unexpected error: '' @ e) duration ts,
          w'))"

definition effective_timeout :: "int \<Rightarrow> int" where
  "effective_timeout timeout = (if timeout \<le> 0 \<or> timeout > 3600 then 300 else timeout)"

fun is_JStr :: "json \<Rightarrow> bool" where
  "is_JStr (JStr s) = True"
| "is_JStr v = False"

fun str_of :: "json \<Rightarrow> string" where
  "str_of (JStr s) = s"
| "str_of v = []"

text \<open>
  \<^verbatim>\<open>_run_command\<close> on a value of any JSON type, as the suggested fix of an analysis is: a
  list is an argument vector (\<^verbatim>\<open>' '.join\<close> raises \<^verbatim>\<open>TypeError\<close> when an item is not a
  string), a string is a shell line, anything else is answered without a process.
\<close>

fun run_command :: "environment \<Rightarrow> json \<Rightarrow> int \<Rightarrow> world \<Rightarrow> (py_exn + ExecutionResult) \<times> world" where
  "run_command env (JArr xs) timeout w =
     (if list_all is_JStr xs
      then (Inr (fst (spawn_process env (Argv (map str_of xs) (effective_timeout timeout)) w)),
            snd (spawn_process env (Argv (map str_of xs) (effective_timeout timeout)) w))
      else (Inl TypeError, w))"
| "run_command env (JStr s) timeout w =
     (if strip s = [] then (Inr (failure ''Empty command provided'' 0 (clock env w)), w)
      else (Inr (fst (spawn_process env (Shell s (effective_timeout timeout)) w)),
            snd (spawn_process env (Shell s (effective_timeout timeout)) w)))"
| "run_command env v timeout w = (Inr (failure ''Invalid command type'' 0 (clock env w)), w)"

text \<open>\<^verbatim>\<open>input()\<close>: the next line, or \<^verbatim>\<open>EOFError\<close> at the end of the input.\<close>

definition read_input :: "world \<Rightarrow> (py_exn + string) \<times> world" where
  "read_input w =
     (case stdin w of
        [] \<Rightarrow> (Inl EOFError, w)
      | line # rest \<Rightarrow> (Inr line, w\<lparr> stdin := rest \<rparr>))"

text \<open>\<^verbatim>\<open>if not self.session_id\<close>: neither \<^verbatim>\<open>None\<close> nor the empty string counts.\<close>

definition active_session :: "ExecutionEngine \<Rightarrow> string option" where
  "active_session eng =
     (case eng_session_id eng of
        None \<Rightarrow> None
      | Some s \<Rightarrow> if s = [] then None else Some s)"

definition step_commands :: "PlanStep \<Rightarrow> string list" where
  "step_commands step =
     (case st_command step of
        None \<Rightarrow> []
      | Some c \<Rightarrow> if c = [] then [] else [c]) @ st_commands step"

definition step_number_or :: "PlanStep \<Rightarrow> int \<Rightarrow> int" where
  "step_number_or step dflt = (case st_step_number step of None \<Rightarrow> dflt | Some n \<Rightarrow> n)"

definition step_name_or :: "PlanStep \<Rightarrow> string \<Rightarrow> string" where
  "step_name_or step dflt = (case st_name step of None \<Rightarrow> dflt | Some n \<Rightarrow> n)"

text \<open>\<^verbatim>\<open>self.state.update_step(self.session_id, step_number, step_name, status, result)\<close>.\<close>

definition record_step :: "environment \<Rightarrow> string \<Rightarrow> PlanStep \<Rightarrow> string \<Rightarrow> ExecutionResult
    \<Rightarrow> world \<Rightarrow> world" where
  "record_step env sid step status result w =
     w\<lparr> store := update_step (store w) sid (step_number_or step 0)
                    (step_name_or step ''Unknown'') status (Some result) (clock env w) \<rparr>"

text \<open>
  The confirmation of a step that requires sudo: \<open>Inr True\<close> to go on, \<open>Inr False\<close> when the
  user declined.
\<close>

definition confirm_step :: "ExecutionEngine \<Rightarrow> PlanStep \<Rightarrow> world \<Rightarrow> (py_exn + bool) \<times> world" where
  "confirm_step eng step w =
     (if \<not> auto_approve eng \<and> st_requires_sudo step then
        (case read_input w of
           (Inl e, w1) \<Rightarrow> (Inl e, w1)
         | (Inr line, w1) \<Rightarrow>
             (let confirm = lower (strip line)
              in (Inr (\<not> (confirm \<noteq> [] \<and> confirm \<notin> set [''y'', ''yes''])), w1)))
      else (Inr True, w))"

definition run_or_dry :: "environment \<Rightarrow> ExecutionEngine \<Rightarrow> string \<Rightarrow> int \<Rightarrow> world
    \<Rightarrow> (py_exn + ExecutionResult) \<times> world" where
  "run_or_dry env eng cmd timeout w =
     (if dry_run eng then
        (Inr \<lparr> res_success = True, res_returncode = 0, res_stdout = ''[DRY RUN]'', res_stderr = [],
               res_duration_ms = 0, res_timestamp = clock env w \<rparr>, w)
      else run_command env (JStr cmd) timeout w)"

text \<open>
  The \<^verbatim>\<open>for cmd in commands\<close> loop of \<^verbatim>\<open>execute_step\<close>. It returns from the step
  (\<open>Returned\<close>, the row already written) or runs to its end (\<open>Finished\<close>, with the result of
  the last command, if there was one).
\<close>

datatype loop_exit = Returned ExecutionResult | Finished "ExecutionResult option"

fun command_loop :: "environment \<Rightarrow> ExecutionEngine \<Rightarrow> string \<Rightarrow> PlanStep \<Rightarrow> int \<Rightarrow> string list
    \<Rightarrow> ExecutionResult option \<Rightarrow> world \<Rightarrow> (py_exn + loop_exit) \<times> world" where
  "command_loop env eng sid step timeout [] last_result w = (Inr (Finished last_result), w)"
| "command_loop env eng sid step timeout (cmd # cmds) last_result w =
     (if \<not> fst (validate_command cmd) then
        (let result = failure (''Validation failed: '' @ snd (validate_command cmd)) 0 (clock env w)
         in (Inr (Returned result), record_step env sid step ''failed'' result w))
      else
        (case confirm_step eng step w of
           (Inl e, w1) \<Rightarrow> (Inl e, w1)
         | (Inr False, w1) \<Rightarrow>
             (let result = failure ''User cancelled'' 0 (clock env w1)
              in (Inr (Returned result), record_step env sid step ''cancelled'' result w1))
         | (Inr True, w1) \<Rightarrow>
             (case run_or_dry env eng cmd timeout w1 of
                (Inl e, w2) \<Rightarrow> (Inl e, w2)
              | (Inr result, w2) \<Rightarrow>
                  if \<not> res_success result
                  then (Inr (Returned result), record_step env sid step ''failed'' result w2)
                  else command_loop env eng sid step timeout cmds (Some result) w2)))"

text \<open>The verification after the loop; its result is only printed.\<close>

definition verify_step :: "environment \<Rightarrow> ExecutionEngine \<Rightarrow> PlanStep \<Rightarrow> world
    \<Rightarrow> (py_exn + unit) \<times> world" where
  "verify_step env eng step w =
     (case st_check_command step of
        None \<Rightarrow> (Inr (), w)
      | Some check_cmd \<Rightarrow>
          if check_cmd \<noteq> [] \<and> \<not> dry_run eng then
            (case run_command env (JStr check_cmd) 30 w of
               (Inl e, w1) \<Rightarrow> (Inl e, w1)
             | (Inr check_result, w1) \<Rightarrow> (Inr (), w1))
          else (Inr (), w))"

definition execute_step :: "environment \<Rightarrow> ExecutionEngine \<Rightarrow> PlanStep \<Rightarrow> int \<Rightarrow> world
    \<Rightarrow> (py_exn + ExecutionResult) \<times> world" where
  "execute_step env eng step timeout w =
     (case active_session eng of
        None \<Rightarrow> (Inl ValueError, w)
      | Some sid \<Rightarrow>
          if step_commands step = [] then
            (let result = \<lparr> res_success = True, res_returncode = 0, res_stdout = [],
                             res_stderr = [], res_duration_ms = 0, res_timestamp = clock env w \<rparr>
             in (Inr result, record_step env sid step ''completed'' result w))
          else
            (case command_loop env eng sid step timeout (step_commands step) None w of
               (Inl e, w1) \<Rightarrow> (Inl e, w1)
             | (Inr (Returned result), w1) \<Rightarrow> (Inr result, w1)
             | (Inr (Finished None), w1) \<Rightarrow> (Inl NameError, w1)
             | (Inr (Finished (Some result)), w1) \<Rightarrow>
                 (case verify_step env eng step w1 of
                    (Inl e, w2) \<Rightarrow> (Inl e, w2)
                  | (Inr u, w2) \<Rightarrow>
                      (Inr result, record_step env sid step ''completed'' result w2))))"

text \<open>The truth value Python gives \<^verbatim>\<open>analysis.get(key)\<close>.\<close>

fun truthy :: "json option \<Rightarrow> bool" where
  "truthy None = False"
| "truthy (Some JNull) = False"
| "truthy (Some (JBool b)) = b"
| "truthy (Some (JNum n)) = (n \<noteq> 0)"
| "truthy (Some (JStr s)) = (s \<noteq> [])"
| "truthy (Some (JArr xs)) = (xs \<noteq> [])"
| "truthy (Some (JObj kvs)) = (kvs \<noteq> [])"

definition get_or_null :: "json \<Rightarrow> string \<Rightarrow> json" where
  "get_or_null d k = (case dict_get d k of None \<Rightarrow> JNull | Some v \<Rightarrow> v)"

definition recovery_command :: "PlanStep \<Rightarrow> string" where
  "recovery_command step =
     (case st_command step of
        None \<Rightarrow> join '' '' (st_commands step)
      | Some c \<Rightarrow> if c = [] then join '' '' (st_commands step) else c)"

definition step_context :: "PlanStep \<Rightarrow> int \<Rightarrow> string \<Rightarrow> json" where
  "step_context step step_num sid =
     JObj [(''step_number'', JNum step_num),
           (''step_name'', (case st_name step of None \<Rightarrow> JNull | Some n \<Rightarrow> JStr n)),
           (''session_id'', JStr sid)]"

text \<open>
  The recovery block of \<^verbatim>\<open>execute_plan\<close> after a failed step. \<open>Inr (Some r)\<close> is the
  \<^verbatim>\<open>continue\<close> after a successful retry with result \<open>r\<close>, \<open>Inr None\<close> the \<^verbatim>\<open>break\<close>.
\<close>

definition recover :: "environment \<Rightarrow> ExecutionEngine \<Rightarrow> PlanStep \<Rightarrow> int \<Rightarrow> ExecutionResult
    \<Rightarrow> world \<Rightarrow> (py_exn + ExecutionResult option) \<times> world" where
  "recover env eng step step_num result w =
     (case active_session eng of
        None \<Rightarrow> (Inr None, w)
      | Some sid \<Rightarrow>
          (case analyze_error (recovery_client env) (recovery_command step) (res_stdout result)
                  (res_stderr result) (step_context step step_num sid) of
             Inl e \<Rightarrow> (Inl e, w)
           | Inr analysis \<Rightarrow>
               if \<not> is_dict analysis then (Inl NoAttributeGet, w)
               else if truthy (dict_get analysis ''can_auto_retry'') \<and> \<not> dry_run eng then
                 (case read_input w of
                    (Inl e, w1) \<Rightarrow> (Inl e, w1)
                  | (Inr line, w1) \<Rightarrow>
                      (let retry = lower (strip line) in
                       if retry = [] \<or> retry \<in> set [''y'', ''yes''] then
                         (case run_command env (get_or_null analysis ''suggested_fix'') 60 w1 of
                            (Inl e, w2) \<Rightarrow> (Inl e, w2)
                          | (Inr fix_result, w2) \<Rightarrow>
                              if res_success fix_result then
                                (case execute_step env eng step 300
                                        (w2\<lparr> entered := entered w2 @ [step_num] \<rparr>) of
                                   (Inl e, w3) \<Rightarrow> (Inl e, w3)
                                 | (Inr result', w3) \<Rightarrow>
                                     if res_success result' then (Inr (Some result'), w3)
                                     else (Inr None, w3))
                              else (Inr None, w2))
                       else (Inr None, w1)))
               else (Inr None, w)))"

text \<open>The \<^verbatim>\<open>for i, step in enumerate(steps)\<close> loop of \<^verbatim>\<open>execute_plan\<close>.\<close>

fun plan_loop :: "environment \<Rightarrow> ExecutionEngine \<Rightarrow> int list \<Rightarrow> int \<Rightarrow> (nat \<times> PlanStep) list
    \<Rightarrow> ExecutionResult list \<Rightarrow> world \<Rightarrow> (py_exn + ExecutionResult list) \<times> world" where
  "plan_loop env eng completed resume_from [] results w = (Inr results, w)"
| "plan_loop env eng completed resume_from ((i, step) # rest) results w =
     (let step_num = step_number_or step (int i) in
      if step_num \<in> set completed then plan_loop env eng completed resume_from rest results w
      else if step_num < resume_from then plan_loop env eng completed resume_from rest results w
      else
        (case execute_step env eng step 300 (w\<lparr> entered := entered w @ [step_num] \<rparr>) of
           (Inl e, w1) \<Rightarrow> (Inl e, w1)
         | (Inr result, w1) \<Rightarrow>
             if res_success result
             then plan_loop env eng completed resume_from rest (results @ [result]) w1
             else
               (case recover env eng step step_num result w1 of
                  (Inl e, w2) \<Rightarrow> (Inl e, w2)
                | (Inr (Some result'), w2) \<Rightarrow>
                    plan_loop env eng completed resume_from rest (results @ [result']) w2
                | (Inr None, w2) \<Rightarrow> (Inr (results @ [result]), w2))))"

definition completed_at_start :: "ExecutionEngine \<Rightarrow> world \<Rightarrow> int list" where
  "completed_at_start eng w =
     (case active_session eng of
        None \<Rightarrow> []
      | Some sid \<Rightarrow> get_completed_steps (store w) sid)"

definition execute_plan :: "environment \<Rightarrow> ExecutionEngine \<Rightarrow> PlanStep list \<Rightarrow> int \<Rightarrow> world
    \<Rightarrow> (py_exn + ExecutionResult list) \<times> world" where
  "execute_plan env eng steps resume_from w =
     (case plan_loop env eng (completed_at_start eng w) resume_from
             (enumerate 0 steps) [] w of
        (Inl e, w1) \<Rightarrow> (Inl e, w1)
      | (Inr results, w1) \<Rightarrow>
          (case active_session eng of
             None \<Rightarrow> (Inr results, w1)
           | Some sid \<Rightarrow>
               (Inr results,
                w1\<lparr> store := complete_session (store w1) sid (list_all res_success results)
                                (clock env w1) \<rparr>)))"

section \<open>Example runs of the engine\<close>

text \<open>
  An engine with an active session \<open>s1\<close>, approving by itself and not in dry-run mode, on a
  machine where every process exits with code 0, except \<^verbatim>\<open>curl\<close>, which cannot resolve its
  host, and the line \<open>Check internet connection and retry\<close>, which the shell cannot run.
\<close>

definition example_proc :: "spawn list \<Rightarrow> spawn \<Rightarrow> proc_outcome \<times> int" where
  "example_proc history sp =
     (if sp = Shell ''curl http://x'' 300
      then (Exited 6 [] ''curl: (6) Could not resolve host: x'', 20)
      else if sp = Shell ''Check internet connection and retry'' 60
      then (Exited 127 [] ''sh: 1: Check: not found'', 1)
      else (Exited 0 [] [], 5))"

definition example_env :: environment where
  "example_env = \<lparr> proc = example_proc, clock = (\<lambda>w. ''t''), recovery_client = None \<rparr>"

definition example_engine :: ExecutionEngine where
  "example_engine = \<lparr> dry_run = False, auto_approve = True, eng_session_id = Some ''s1'' \<rparr>"

definition plain_step :: "int \<Rightarrow> string \<Rightarrow> string list \<Rightarrow> PlanStep" where
  "plain_step n nm cmds =
     \<lparr> st_step_number = Some n, st_name = Some nm, st_description = None, st_command = None,
       st_commands = cmds, st_requires_sudo = False, st_check_command = None \<rparr>"

definition fresh_world :: world where
  "fresh_world =
     \<lparr> spawned = [], stdin = [],
       store = snd (create_session init_db ''s1'' (JObj []) (JObj []) (JObj []) ''t0''),
       entered = [] \<rparr>"

text \<open>A world in which step 1 of session \<open>s1\<close> is recorded as completed.\<close>

definition resumed_world :: world where
  "resumed_world =
     fresh_world\<lparr> store := update_step (store fresh_world) ''s1'' 1 ''one'' ''completed'' None ''t1'' \<rparr>"

definition three_steps :: "PlanStep list" where
  "three_steps = [plain_step 1 ''one'' [''echo 1''], plain_step 2 ''two'' [''echo 2''],
                  plain_step 3 ''three'' [''echo 3'']]"

text \<open>A step whose second command is on the deny-list, in upper case.\<close>

definition unsafe_step :: PlanStep where
  "unsafe_step = plain_step 1 ''cleanup'' [''echo hi'', ''RM -RF /home'', ''echo never'']"

text \<open>A step that fails for want of a network, and the user's answer to the prompt.\<close>

definition curl_step :: PlanStep where
  "curl_step = plain_step 1 ''download'' [''curl http://x'']"

definition answering_world :: world where
  "answering_world = fresh_world\<lparr> stdin := [''y''] \<rparr>"

text \<open>A step whose only command is blank.\<close>

definition blank_step :: PlanStep where
  "blank_step = plain_step 2 ''nothing'' [''   '']"

section \<open>Rollback manager (rollback\_manager.py)\<close>

text \<open>
  A directory tree is the map from the relative paths of its files to their contents; the file
  system is the map from the paths of the directories the manager copies to their trees,
  and from the paths of plain files to their contents.
\<close>

type_synonym tree = "string \<rightharpoonup> string"

datatype fs_op = Mkdir string | Copytree string string | Rmtree string | Copy2 string string

datatype rb_error =
    FsError
  | FileNotFoundError
  | FileExistsError
  | IntegrityError
  | InputEOF
  | ServiceError

text \<open>The tables \<^verbatim>\<open>backup_points\<close> (with \<^verbatim>\<open>backup_id TEXT UNIQUE\<close>) and \<^verbatim>\<open>rollback_log\<close>.\<close>

record backup_row =
  bp_backup_id :: string
  bp_timestamp :: string
  bp_description :: string
  bp_services :: "string list"
  bp_config_backup_path :: "string option"
  bp_data_backup_paths :: "(string \<times> string) list"
  bp_created_at :: string

record log_row =
  log_backup_id :: string
  log_rollback_timestamp :: string
  log_success :: bool
  log_restored :: nat
  log_failed :: "string list"

text \<open>
  What the manager acts on: directories, files, its two tables, the lines \<^verbatim>\<open>input()\<close> will
  return, and the argument vectors given to \<^verbatim>\<open>subprocess.run\<close> so far.
\<close>

record rb_world =
  dirs :: "string \<rightharpoonup> tree"
  files :: "string \<rightharpoonup> string"
  backup_points :: "backup_row list"
  rollback_log :: "log_row list"
  console :: "string list"
  service_calls :: "string list list"

text \<open>
  What the manager does not decide: the home and backup directories, the two readings of
  the clock, whether a file-system operation fails (\<open>Some leftover\<close>: it raises and leaves
  \<open>leftover\<close> at its target), whether a \<^verbatim>\<open>subprocess.run\<close> raises, and what
  \<^verbatim>\<open>docker export\<close> writes (\<open>None\<close>: it raises).
\<close>

record rb_env =
  rb_home :: string
  rb_backup_dir :: string
  rb_stamp :: "rb_world \<Rightarrow> string"
  rb_now :: "rb_world \<Rightarrow> string"
  fs_fault :: "rb_world \<Rightarrow> fs_op \<Rightarrow> tree option option"
  call_raises :: "rb_world \<Rightarrow> string list \<Rightarrow> bool"
  docker_export :: "rb_world \<Rightarrow> string \<Rightarrow> string option"

definition path_exists :: "rb_world \<Rightarrow> string \<Rightarrow> bool" where
  "path_exists w p = (dirs w p \<noteq> None \<or> files w p \<noteq> None)"

text \<open>
  \<^verbatim>\<open>shutil.copytree(src, dst, dirs_exist_ok=ok)\<close>: onto an existing directory it merges, the
  files of the source winning, or raises without \<^verbatim>\<open>dirs_exist_ok\<close>.
\<close>

definition copytree :: "rb_env \<Rightarrow> string \<Rightarrow> string \<Rightarrow> bool \<Rightarrow> rb_world
    \<Rightarrow> (rb_error + unit) \<times> rb_world" where
  "copytree env src dst dirs_exist_ok w =
     (case fs_fault env w (Copytree src dst) of
        Some leftover \<Rightarrow> (Inl FsError, w\<lparr> dirs := (dirs w)(dst := leftover) \<rparr>)
      | None \<Rightarrow>
          (case dirs w src of
             None \<Rightarrow> (Inl FileNotFoundError, w)
           | Some tr \<Rightarrow>
               (case dirs w dst of
                  None \<Rightarrow> (Inr (), w\<lparr> dirs := (dirs w)(dst \<mapsto> tr) \<rparr>)
                | Some old \<Rightarrow>
                    if dirs_exist_ok then (Inr (), w\<lparr> dirs := (dirs w)(dst \<mapsto> old ++ tr) \<rparr>)
                    else (Inl FileExistsError, w))))"

definition rmtree :: "rb_env \<Rightarrow> string \<Rightarrow> rb_world \<Rightarrow> (rb_error + unit) \<times> rb_world" where
  "rmtree env p w =
     (case fs_fault env w (Rmtree p) of
        Some leftover \<Rightarrow> (Inl FsError, w\<lparr> dirs := (dirs w)(p := leftover) \<rparr>)
      | None \<Rightarrow>
          (case dirs w p of
             None \<Rightarrow> (Inl FileNotFoundError, w)
           | Some tr \<Rightarrow> (Inr (), w\<lparr> dirs := (dirs w)(p := None) \<rparr>)))"

definition copy2 :: "rb_env \<Rightarrow> string \<Rightarrow> string \<Rightarrow> rb_world \<Rightarrow> (rb_error + unit) \<times> rb_world" where
  "copy2 env src dst w =
     (case fs_fault env w (Copy2 src dst) of
        Some leftover \<Rightarrow> (Inl FsError, w)
      | None \<Rightarrow>
          (case files w src of
             None \<Rightarrow> (Inl FileNotFoundError, w)
           | Some content \<Rightarrow> (Inr (), w\<lparr> files := (files w)(dst \<mapsto> content) \<rparr>)))"

definition get_service_data_path :: "rb_env \<Rightarrow> string \<Rightarrow> string option" where
  "get_service_data_path env service =
     map_of [(''adguard'', rb_home env @ ''/adguardhome''),
             (''jellyfin'', rb_home env @ ''/home-server-data/jellyfin''),
             (''immich'', rb_home env @ ''/home-server-data/immich''),
             (''tailscale'', ''/var/lib/tailscale''),
             (''openclaw'', rb_home env @ ''/.openclaw'')] service"

definition is_docker_service :: "string \<Rightarrow> bool" where
  "is_docker_service service = (service \<in> set [''adguard'', ''jellyfin'', ''immich''])"

definition container_names :: "string \<Rightarrow> string option" where
  "container_names service =
     map_of [(''adguard'', ''adguardhome''), (''jellyfin'', ''jellyfin''),
             (''immich'', ''immich_server'')] service"

text \<open>A \<^verbatim>\<open>subprocess.run\<close> of the manager: the call is recorded, and it may raise.\<close>

definition run_argv :: "rb_env \<Rightarrow> string list \<Rightarrow> rb_world \<Rightarrow> (rb_error + unit) \<times> rb_world" where
  "run_argv env argv w =
     (if call_raises env w argv then Inl ServiceError else Inr (),
      w\<lparr> service_calls := service_calls w @ [argv] \<rparr>)"

definition docker_call :: "rb_env \<Rightarrow> string \<Rightarrow> string \<Rightarrow> rb_world
    \<Rightarrow> (rb_error + unit) \<times> rb_world" where
  "docker_call env verb service w =
     (case container_names service of
        None \<Rightarrow> (Inr (), w)
      | Some container \<Rightarrow> run_argv env [''docker'', verb, container] w)"

definition stop_service :: "rb_env \<Rightarrow> string \<Rightarrow> rb_world \<Rightarrow> (rb_error + unit) \<times> rb_world" where
  "stop_service env service w =
     (if is_docker_service service then docker_call env ''stop'' service w
      else if service = ''tailscale''
      then run_argv env [''sudo'', ''systemctl'', ''stop'', ''tailscaled''] w
      else (Inr (), w))"

definition remove_service :: "rb_env \<Rightarrow> string \<Rightarrow> rb_world \<Rightarrow> (rb_error + unit) \<times> rb_world" where
  "remove_service env service w =
     (if is_docker_service service then docker_call env ''rm'' service w else (Inr (), w))"

definition start_service :: "rb_env \<Rightarrow> string \<Rightarrow> rb_world \<Rightarrow> (rb_error + unit) \<times> rb_world" where
  "start_service env service w =
     (if is_docker_service service then docker_call env ''start'' service w
      else if service = ''tailscale''
      then run_argv env [''sudo'', ''systemctl'', ''start'', ''tailscaled''] w
      else (Inr (), w))"

text \<open>
  \<^verbatim>\<open>_backup_docker_container\<close>: \<^verbatim>\<open>docker export -o output_path container\<close> with
  \<^verbatim>\<open>check=True\<close>.
\<close>

definition backup_docker_container :: "rb_env \<Rightarrow> string \<Rightarrow> string \<Rightarrow> rb_world
    \<Rightarrow> (rb_error + unit) \<times> rb_world" where
  "backup_docker_container env service output_path w =
     (case container_names service of
        None \<Rightarrow> (Inr (), w)
      | Some container \<Rightarrow>
          (let w1 = w\<lparr> service_calls := service_calls w
                        @ [[''docker'', ''export'', ''-o'', output_path, container]] \<rparr>
           in case docker_export env w container of
                None \<Rightarrow> (Inl ServiceError, w1)
              | Some tar \<Rightarrow> (Inr (), w1\<lparr> files := (files w1)(output_path \<mapsto> tar) \<rparr>)))"

text \<open>The first loop of \<^verbatim>\<open>create_backup\<close>: the data directories, best effort.\<close>

fun backup_data_loop :: "rb_env \<Rightarrow> string \<Rightarrow> string list \<Rightarrow> (string \<times> string) list \<Rightarrow> rb_world
    \<Rightarrow> (string \<times> string) list \<times> rb_world" where
  "backup_data_loop env backup_path [] data_paths w = (data_paths, w)"
| "backup_data_loop env backup_path (service # services) data_paths w =
     (case get_service_data_path env service of
        None \<Rightarrow> backup_data_loop env backup_path services data_paths w
      | Some service_data_path \<Rightarrow>
          if service_data_path \<noteq> [] \<and> path_exists w service_data_path then
            (case copytree env service_data_path (backup_path @ ''/'' @ service @ ''_data'') True w of
               (Inr u, w1) \<Rightarrow>
                 backup_data_loop env backup_path services
                   (dict_set data_paths service (backup_path @ ''/'' @ service @ ''_data'')) w1
             | (Inl e, w1) \<Rightarrow> backup_data_loop env backup_path services data_paths w1)
          else backup_data_loop env backup_path services data_paths w)"

text \<open>The second loop: the container exports.\<close>

fun backup_container_loop :: "rb_env \<Rightarrow> string \<Rightarrow> string list \<Rightarrow> (string \<times> string) list
    \<Rightarrow> rb_world \<Rightarrow> (string \<times> string) list \<times> rb_world" where
  "backup_container_loop env backup_path [] data_paths w = (data_paths, w)"
| "backup_container_loop env backup_path (service # services) data_paths w =
     (if is_docker_service service then
        (case backup_docker_container env service
                (backup_path @ ''/'' @ service @ ''_container.tar'') w of
           (Inr u, w1) \<Rightarrow>
             backup_container_loop env backup_path services
               (dict_set data_paths (service @ ''_container'')
                  (backup_path @ ''/'' @ service @ ''_container.tar'')) w1
         | (Inl e, w1) \<Rightarrow> backup_container_loop env backup_path services data_paths w1)
      else backup_container_loop env backup_path services data_paths w)"

text \<open>
  \<^verbatim>\<open>create_backup\<close>. The directory of the backup is made, the configuration file is copied
  when there is one, the two loops run, and the row is inserted; \<^verbatim>\<open>INSERT\<close> raises when the
  backup id, a time stamp to the second, is already in the table.
\<close>

definition create_backup :: "rb_env \<Rightarrow> string list \<Rightarrow> string \<Rightarrow> rb_world
    \<Rightarrow> (rb_error + string) \<times> rb_world" where
  "create_backup env services description w =
     (let backup_id = ''backup_'' @ rb_stamp env w;
          backup_path = rb_backup_dir env @ ''/'' @ backup_id;
          timestamp = rb_now env w
      in case fs_fault env w (Mkdir backup_path) of
           Some leftover \<Rightarrow> (Inl FsError, w)
         | None \<Rightarrow>
             (case (if path_exists w ''config.json''
                    then (case copy2 env ''config.json'' (backup_path @ ''/config.json'') w of
                            (Inl e, w1) \<Rightarrow> (Inl e, w1)
                          | (Inr u, w1) \<Rightarrow> (Inr (Some (backup_path @ ''/config.json'')), w1))
                    else (Inr None, w)) of
                (Inl e, w1) \<Rightarrow> (Inl e, w1)
              | (Inr config_backup, w1) \<Rightarrow>
                  (let dl = backup_data_loop env backup_path services [] w1;
                       cl = backup_container_loop env backup_path services (fst dl) (snd dl);
                       w3 = snd cl
                   in if backup_id \<in> set (map bp_backup_id (backup_points w3))
                      then (Inl IntegrityError, w3)
                      else (Inr backup_id,
                            w3\<lparr> backup_points := backup_points w3
                                  @ [\<lparr> bp_backup_id = backup_id, bp_timestamp = timestamp,
                                       bp_description = description, bp_services = services,
                                       bp_config_backup_path = config_backup,
                                       bp_data_backup_paths = fst cl,
                                       bp_created_at = timestamp \<rparr>] \<rparr>))))"

text \<open>The loops of \<^verbatim>\<open>rollback\<close>. Stopping and removing: every exception is logged.\<close>

fun stop_remove_loop :: "rb_env \<Rightarrow> string list \<Rightarrow> rb_world \<Rightarrow> rb_world" where
  "stop_remove_loop env [] w = w"
| "stop_remove_loop env (service # services) w =
     (case stop_service env service w of
        (Inl e, w1) \<Rightarrow> stop_remove_loop env services w1
      | (Inr u, w1) \<Rightarrow> stop_remove_loop env services (snd (remove_service env service w1)))"

definition restore_config :: "rb_env \<Rightarrow> string option \<Rightarrow> rb_world \<Rightarrow> rb_world" where
  "restore_config env config_path w =
     (case config_path of
        None \<Rightarrow> w
      | Some p \<Rightarrow>
          if p \<noteq> [] \<and> path_exists w p then snd (copy2 env p ''config.json'' w) else w)"

text \<open>
  Restoring the data of one service: the live directory is removed when it exists, then the
  snapshot is copied to its place.
\<close>

definition restore_data :: "rb_env \<Rightarrow> string \<Rightarrow> string \<Rightarrow> rb_world \<Rightarrow> (rb_error + bool) \<times> rb_world" where
  "restore_data env service snapshot w =
     (case get_service_data_path env service of
        None \<Rightarrow> (Inr False, w)
      | Some service_data_path \<Rightarrow>
          if service_data_path = [] then (Inr False, w)
          else
            (case (if path_exists w service_data_path then rmtree env service_data_path w
                   else (Inr (), w)) of
               (Inl e, w1) \<Rightarrow> (Inl e, w1)
             | (Inr u, w1) \<Rightarrow>
                 (case copytree env snapshot service_data_path False w1 of
                    (Inl e, w2) \<Rightarrow> (Inl e, w2)
                  | (Inr u', w2) \<Rightarrow> (Inr True, w2))))"

fun restore_data_loop :: "rb_env \<Rightarrow> (string \<times> string) list \<Rightarrow> string list \<Rightarrow> nat \<Rightarrow> string list
    \<Rightarrow> rb_world \<Rightarrow> nat \<times> string list \<times> rb_world" where
  "restore_data_loop env data_paths [] success_count failed_services w =
     (success_count, failed_services, w)"
| "restore_data_loop env data_paths (service # services) success_count failed_services w =
     (case map_of data_paths service of
        None \<Rightarrow> restore_data_loop env data_paths services success_count failed_services w
      | Some snapshot \<Rightarrow>
          (case restore_data env service snapshot w of
             (Inl e, w1) \<Rightarrow>
               restore_data_loop env data_paths services success_count
                 (failed_services @ [service]) w1
           | (Inr counted, w1) \<Rightarrow>
               restore_data_loop env data_paths services
                 (if counted then success_count + 1 else success_count) failed_services w1))"

fun restart_loop :: "rb_env \<Rightarrow> string list \<Rightarrow> string list \<Rightarrow> rb_world \<Rightarrow> string list \<times> rb_world" where
  "restart_loop env [] failed_services w = (failed_services, w)"
| "restart_loop env (service # services) failed_services w =
     (if service \<notin> set failed_services then
        (case start_service env service w of
           (Inl e, w1) \<Rightarrow> restart_loop env services (failed_services @ [service]) w1
         | (Inr u, w1) \<Rightarrow> restart_loop env services failed_services w1)
      else restart_loop env services failed_services w)"

text \<open>
  \<^verbatim>\<open>rollback\<close> once the backup is found and the user has agreed: the loops, then the
  \<^verbatim>\<open>INSERT INTO rollback_log\<close>, then the result.
\<close>

definition perform_rollback :: "rb_env \<Rightarrow> backup_row \<Rightarrow> string \<Rightarrow> rb_world
    \<Rightarrow> (bool \<times> string) \<times> rb_world" where
  "perform_rollback env row backup_id w =
     (let w1 = stop_remove_loop env (bp_services row) w;
          w2 = restore_config env (bp_config_backup_path row) w1;
          rd = restore_data_loop env (bp_data_backup_paths row) (bp_services row) 0 [] w2;
          rs = restart_loop env (bp_services row) (fst (snd rd)) (snd (snd rd));
          failed_services = fst rs;
          w4 = snd rs;
          w5 = w4\<lparr> rollback_log := rollback_log w4
                  @ [\<lparr> log_backup_id = backup_id, log_rollback_timestamp = rb_now env w4,
                       log_success = (length failed_services = 0), log_restored = fst rd,
                       log_failed = failed_services \<rparr>] \<rparr>
      in (if failed_services \<noteq> []
          then (False, ''Rollback partially failed. Failed services: ''
                        @ join '', '' failed_services)
          else (True, ''Successfully rolled back to '' @ backup_id),
          w5))"

definition rollback :: "rb_env \<Rightarrow> string \<Rightarrow> bool \<Rightarrow> rb_world
    \<Rightarrow> (rb_error + bool \<times> string) \<times> rb_world" where
  "rollback env backup_id confirm w =
     (case find (\<lambda>r. bp_backup_id r = backup_id) (backup_points w) of
        None \<Rightarrow> (Inr (False, ''Backup '' @ backup_id @ '' not found''), w)
      | Some row \<Rightarrow>
          if confirm then
            (case console w of
               [] \<Rightarrow> (Inl InputEOF, w)
             | line # rest \<Rightarrow>
                 if lower (strip line) \<noteq> ''y''
                 then (Inr (False, ''Rollback cancelled by user''), w\<lparr> console := rest \<rparr>)
                 else (Inr (fst (perform_rollback env row backup_id (w\<lparr> console := rest \<rparr>))),
                       snd (perform_rollback env row backup_id (w\<lparr> console := rest \<rparr>))))
          else (Inr (fst (perform_rollback env row backup_id w)),
                snd (perform_rollback env row backup_id w)))"

text \<open>Where \<^verbatim>\<open>create_backup\<close> puts the snapshot of a service's data.\<close>

definition snapshot_path :: "rb_env \<Rightarrow> string \<Rightarrow> string \<Rightarrow> string" where
  "snapshot_path env backup_id service =
     rb_backup_dir env @ ''/'' @ backup_id @ ''/'' @ service @ ''_data''"

text \<open>An environment without faults, and a machine with the data of one service.\<close>

definition calm_env :: rb_env where
  "calm_env = \<lparr> rb_home = ''/home/u'', rb_backup_dir = ''/home/u/.home-server/backups'',
                 rb_stamp = (\<lambda>w. ''20240101_120000''), rb_now = (\<lambda>w. ''2024-01-01T12:00:00''),
                 fs_fault = (\<lambda>w op. None), call_raises = (\<lambda>w argv. False),
                 docker_export = (\<lambda>w container. Some ''tar'') \<rparr>"

definition openclaw_world :: rb_world where
  "openclaw_world =
     \<lparr> dirs = [''/home/u/.openclaw'' \<mapsto> [''state.json'' \<mapsto> ''v1'']],
       files = Map.empty, backup_points = [], rollback_log = [],
       console = [''y''], service_calls = [] \<rparr>"

text \<open>The machine after a backup of that service, and with a user who declines.\<close>

definition backed_up_world :: rb_world where
  "backed_up_world = snd (create_backup calm_env [''openclaw''] ''before'' openclaw_world)"

definition declining_world :: rb_world where
  "declining_world = backed_up_world\<lparr> console := [''n''] \<rparr>"

section \<open>The circuit breaker when it is open\<close>

lemma tripped_eq:
  "tripped = \<lparr> cb_failure_threshold = 1, cb_recovery_timeout = 60, half_open_max_calls = 3,
      cb_name = ''test'', cb_state = OPEN, cb_failure_count = 1, cb_success_count = 0,
      cb_last_failure_time = Some 0, cb_half_open_calls = 0 \<rparr>"
  by (simp add: tripped_def call_def admit_def on_failure_def CircuitBreaker_init_def Let_def)

text \<open>
  Whatever the clock says, an open breaker that has recorded a failure time answers a call
  with \<^verbatim>\<open>AttributeError\<close>: the wrapped function is not invoked and the breaker does not move.
\<close>

lemma call_open_attribute_error:
  assumes "cb_state cb = OPEN" and "cb_last_failure_time cb = Some t"
  shows "call cb t_call t_done func = (Inl (AttributeError ''recovery_timeout''), cb, 0)"
  using assms
  by (simp add: call_def admit_def should_attempt_reset_def timeout_attr_def)

text \<open>A breaker only opens in \<^verbatim>\<open>_on_failure\<close>, which records the failure time.\<close>

lemma call_open_has_failure_time:
  assumes "cb_state cb = OPEN \<longrightarrow> cb_last_failure_time cb \<noteq> None"
    and "call cb t_call t_done func = (r, cb', n)"
  shows "cb_state cb' = OPEN \<longrightarrow> cb_last_failure_time cb' \<noteq> None"
  using assms
  by (auto simp: call_def admit_def should_attempt_reset_def timeout_attr_def on_success_def
      on_failure_def reset_def Let_def split: sum.splits if_splits bool.splits option.splits)

text \<open>
  C1. A breaker with failure threshold 1 and recovery timeout 60 s fails once at time 0 and is
  Open. A call at time 1 (before the timeout) and a call at time 100 (after it) both end in
  \<^verbatim>\<open>AttributeError\<close>, not in the breaker-open outcome and not in HalfOpen with the wrapped
  function invoked: the breaker stays Open and the function is never called.
\<close>

theorem C1_open_call_attribute_error:
  "cb_state tripped = OPEN
   \<and> call tripped 1 1 (Inr () :: string + unit)
       = (Inl (AttributeError ''recovery_timeout''), tripped, 0)
   \<and> call tripped 100 100 (Inr () :: string + unit)
       = (Inl (AttributeError ''recovery_timeout''), tripped, 0)"
  by (simp add: tripped_eq call_def admit_def should_attempt_reset_def timeout_attr_def)

section \<open>Retry with backoff: number of invocations\<close>

lemma float_pow_ok:
  assumes "0 \<le> b" "b ^ M < 2 ^ 1024" "n \<le> M"
  shows "float_pow b n = Inr (b ^ n)"
proof -
  have "b ^ n < 2 ^ 1024"
  proof (cases "b \<le> 1")
    case True
    then have "b ^ n \<le> 1" using assms(1) by (simp add: power_le_one)
    also have "(1::real) < 2 ^ 1024" by simp
    finally show ?thesis .
  next
    case False
    then have "b ^ n \<le> b ^ M" using assms(3) by (simp add: power_increasing)
    then show ?thesis using assms(2) by simp
  qed
  then show ?thesis using assms(1) by (simp add: float_pow_def)
qed

lemma always_fails_retriablyD:
  assumes "always_fails_retriably p func"
  shows "\<exists>e. func n = Inl e \<and> exceptions p e"
proof (cases "func n")
  case (Inl e)
  then show ?thesis using assms by (auto simp: always_fails_retriably_def dest: spec[where x=n])
next
  case (Inr v)
  then show ?thesis using assms by (auto simp: always_fails_retriably_def dest: spec[where x=n])
qed

lemma retry_loop_exhausts:
  assumes "sane_params p rnd" and "always_fails_retriably p func"
    and "attempt + k = nat (max_retries p)"
  shows "\<exists>e tr'. func (nat (max_retries p)) = Inl e
     \<and> retry_loop p rnd func (Suc k) attempt lst tr = (Inl (Propagated e), tr')
     \<and> filter is_Invoke tr' = filter is_Invoke tr @ map Invoke [attempt ..< Suc (nat (max_retries p))]"
  using assms(3)
proof (induction k arbitrary: attempt lst tr)
  case 0
  obtain e where e: "func attempt = Inl e" "exceptions p e"
    using always_fails_retriablyD[OF assms(2)] by blast
  from 0 have "attempt = nat (max_retries p)" by simp
  moreover have "int attempt \<ge> max_retries p" using 0 by simp
  ultimately show ?case using e by (simp add: upt_rec)
next
  case (Suc k)
  obtain e where e: "func attempt = Inl e" "exceptions p e"
    using always_fails_retriablyD[OF assms(2)] by blast
  have lt: "\<not> int attempt \<ge> max_retries p" using Suc.prems by linarith
  have pwc: "0 \<le> exponential_base p" "exponential_base p ^ nat (max_retries p) < 2 ^ 1024"
      "attempt \<le> nat (max_retries p)"
    using assms(1) Suc.prems by (auto simp: sane_params_def)
  note pw = float_pow_ok[OF pwc]
  let ?delay = "min (base_delay p * exponential_base p ^ attempt) (max_delay p)"
  have d: "0 \<le> ?delay" using assms(1) by (simp add: sane_params_def)
  have j: "0 \<le> rnd attempt * (?delay * 0.1)" using assms(1) d by (simp add: sane_params_def)
  have s: "\<not> ?delay + rnd attempt * (?delay * 0.1) < 0" using d j by linarith
  have cb: "\<And>n e d. run_on_retry p n e d = None" using assms(1) by (simp add: sane_params_def)
  let ?s = "?delay + rnd attempt * (?delay * 0.1)"
  let ?tr1 = "tr @ [Invoke attempt] @ callback_events p (attempt + 1) e ?s @ [Sleep ?s]"
  have step: "retry_loop p rnd func (Suc (Suc k)) attempt lst tr =
      retry_loop p rnd func (Suc k) (Suc attempt) (Some e) ?tr1"
    using s by (simp add: Let_def e lt pw cb)
  have ce: "filter is_Invoke (callback_events p n e d) = []" for n d
    by (simp add: callback_events_def split: option.splits)
  from Suc.prems have "Suc attempt + k = nat (max_retries p)" by simp
  from Suc.IH[OF this, of "Some e" ?tr1] obtain e' tr' where
    r: "func (nat (max_retries p)) = Inl e'"
       "retry_loop p rnd func (Suc k) (Suc attempt) (Some e) ?tr1 = (Inl (Propagated e'), tr')"
       "filter is_Invoke tr' = filter is_Invoke ?tr1 @ map Invoke [Suc attempt ..< Suc (nat (max_retries p))]"
    by blast
  have u: "[attempt ..< Suc (nat (max_retries p))] = attempt # [Suc attempt ..< Suc (nat (max_retries p))]"
    using Suc.prems by (simp add: upt_rec)
  have f: "filter is_Invoke tr' = filter is_Invoke tr @ map Invoke [attempt ..< Suc (nat (max_retries p))]"
    unfolding u using r(3) by (simp add: ce)
  show ?case
    using r(1) r(2) f unfolding step by blast
qed

lemma wrapper_exhausts:
  assumes "sane_params p rnd" and "always_fails_retriably p func"
  shows "\<exists>e tr. func (nat (max_retries p)) = Inl e
     \<and> wrapper p rnd func = (Inl (Propagated e), tr)
     \<and> int (invocations tr) = max_retries p + 1"
proof -
  have m: "nat (max_retries p + 1) = Suc (nat (max_retries p))"
    using assms(1) by (simp add: sane_params_def nat_add_distrib)
  from retry_loop_exhausts[OF assms, of 0 "nat (max_retries p)" None "[]"]
  obtain e tr where r: "func (nat (max_retries p)) = Inl e"
     "retry_loop p rnd func (Suc (nat (max_retries p))) 0 None [] = (Inl (Propagated e), tr)"
     "filter is_Invoke tr = filter is_Invoke [] @ map Invoke [0 ..< Suc (nat (max_retries p))]"
    by auto
  have "invocations tr = Suc (nat (max_retries p))"
    unfolding invocations_def r(3) by simp
  then have "int (invocations tr) = max_retries p + 1"
    using assms(1) by (simp add: sane_params_def)
  then show ?thesis using r(1) r(2) unfolding wrapper_def m by blast
qed

lemma wrapper_not_retriable:
  assumes "func 0 = Inl e" and "\<not> exceptions p e" and "0 \<le> max_retries p"
  shows "wrapper p rnd func = (Inl (Propagated e), [Invoke 0])"
proof -
  have m: "nat (max_retries p + 1) = Suc (nat (max_retries p))"
    using assms(3) by (simp add: nat_add_distrib)
  show ?thesis unfolding wrapper_def m using assms(1,2) by simp
qed




section \<open>Strings: evaluation\<close>

text \<open>The table of \<^const>\<open>lower_char\<close> as a chain of tests, for evaluating on literals.\<close>

lemma lower_char_if:
  "lower_char c =
     (
      if c = CHR ''A'' then CHR ''a'' else if c = CHR ''B'' then CHR ''b'' else
      if c = CHR ''C'' then CHR ''c'' else if c = CHR ''D'' then CHR ''d'' else
      if c = CHR ''E'' then CHR ''e'' else if c = CHR ''F'' then CHR ''f'' else
      if c = CHR ''G'' then CHR ''g'' else if c = CHR ''H'' then CHR ''h'' else
      if c = CHR ''I'' then CHR ''i'' else if c = CHR ''J'' then CHR ''j'' else
      if c = CHR ''K'' then CHR ''k'' else if c = CHR ''L'' then CHR ''l'' else
      if c = CHR ''M'' then CHR ''m'' else if c = CHR ''N'' then CHR ''n'' else
      if c = CHR ''O'' then CHR ''o'' else if c = CHR ''P'' then CHR ''p'' else
      if c = CHR ''Q'' then CHR ''q'' else if c = CHR ''R'' then CHR ''r'' else
      if c = CHR ''S'' then CHR ''s'' else if c = CHR ''T'' then CHR ''t'' else
      if c = CHR ''U'' then CHR ''u'' else if c = CHR ''V'' then CHR ''v'' else
      if c = CHR ''W'' then CHR ''w'' else if c = CHR ''X'' then CHR ''x'' else
      if c = CHR ''Y'' then CHR ''y'' else if c = CHR ''Z'' then CHR ''z'' else
      c)"
  by (simp add: lower_char_def)

lemma lower_char_idem: "lower_char (lower_char c) = lower_char c"
  by (simp add: lower_char_def)

lemmas str_eval = str_in_def sublist_Cons_right prefix_Cons lower_def lower_char_if

section \<open>The pattern table of the fallback analysis\<close>

lemma no_table_pattern_iff:
  "no_table_pattern t \<longleftrightarrow> match_common common_fixes t = None"
  by (simp add: no_table_pattern_def common_fixes_def)

lemma no_table_pattern_unfold:
  "no_table_pattern t \<longleftrightarrow>
     \<not> str_in ''command not found'' t \<and> \<not> str_in ''permission denied'' t
     \<and> \<not> str_in ''could not resolve host'' t \<and> \<not> str_in ''port is already allocated'' t
     \<and> \<not> str_in ''bind: address already in use'' t \<and> \<not> str_in ''docker: permission denied'' t"
  by (simp add: no_table_pattern_def common_fixes_def)

lemma fallback_command_not_found:
  assumes "str_in ''command not found'' (lower (stderr @ stdout))"
  shows "dict_get (fallback_analyze command stdout stderr) ''fix_type''
           = Some (JStr ''install_dependency'')"
    and "dict_get (fallback_analyze command stdout stderr) ''can_auto_retry'' = Some (JBool False)"
  using assms by (simp_all add: fallback_analyze_def common_fixes_def diagnosis_def Let_def)

lemma fallback_permission_denied:
  assumes "str_in ''permission denied'' (lower (stderr @ stdout))"
    and "\<not> str_in ''command not found'' (lower (stderr @ stdout))"
  shows "dict_get (fallback_analyze command stdout stderr) ''fix_type''
           = Some (JStr ''modify_command'')"
    and "dict_get (fallback_analyze command stdout stderr) ''can_auto_retry'' = Some (JBool True)"
  using assms by (simp_all add: fallback_analyze_def common_fixes_def diagnosis_def Let_def)

lemma fallback_port_patterns:
  assumes "str_in ''bind: address already in use'' (lower (stderr @ stdout))
           \<or> str_in ''port is already allocated'' (lower (stderr @ stdout))"
    and "\<not> str_in ''command not found'' (lower (stderr @ stdout))"
    and "\<not> str_in ''could not resolve host'' (lower (stderr @ stdout))"
  shows "dict_get (fallback_analyze command stdout stderr) ''fix_type''
           = Some (JStr ''modify_command'')"
  using assms by (auto simp add: fallback_analyze_def common_fixes_def diagnosis_def Let_def)

lemma fallback_address_in_use:
  assumes "str_in ''address already in use'' (lower (stderr @ stdout))"
    and "no_table_pattern (lower (stderr @ stdout))"
    and "\<not> str_in ''docker'' (lower command)"
    and "str_in ''53'' command \<or> str_in ''adguard'' (lower command)"
  shows "dict_get (fallback_analyze command stdout stderr) ''fix_type''
           = Some (JStr ''modify_command'')"
  using assms
  by (auto simp add: fallback_analyze_def no_table_pattern_iff diagnosis_def Let_def)

lemma fallback_no_space:
  assumes "str_in ''no space left'' (lower (stderr @ stdout))"
    and "no_table_pattern (lower (stderr @ stdout))"
    and "\<not> str_in ''docker'' (lower command)"
    and "\<not> port53_rule command (lower (stderr @ stdout))"
    and "\<not> str_in ''connection refused'' (lower (stderr @ stdout))"
    and "\<not> str_in ''connection timed out'' (lower (stderr @ stdout))"
  shows "dict_get (fallback_analyze command stdout stderr) ''fix_type''
           = Some (JStr ''manual_intervention'')"
    and "dict_get (fallback_analyze command stdout stderr) ''severity'' = Some (JStr ''critical'')"
  using assms
  by (auto simp add: fallback_analyze_def no_table_pattern_iff diagnosis_def Let_def
      port53_rule_def)

text \<open>The last branch: nothing matched.\<close>

lemma fallback_unknown:
  assumes "no_table_pattern (lower (stderr @ stdout))"
    and "\<not> str_in ''docker'' (lower command)"
    and "\<not> port53_rule command (lower (stderr @ stdout))"
    and "\<not> str_in ''connection refused'' (lower (stderr @ stdout))"
    and "\<not> str_in ''connection timed out'' (lower (stderr @ stdout))"
    and "\<not> str_in ''no space left'' (lower (stderr @ stdout))"
    and "\<not> str_in ''disk full'' (lower (stderr @ stdout))"
    and "\<not> str_in ''apt'' (lower command)"
  shows "dict_get (fallback_analyze command stdout stderr) ''fix_type''
           = Some (JStr ''manual_intervention'')"
  using assms
  by (auto simp add: fallback_analyze_def no_table_pattern_iff diagnosis_def Let_def
      port53_rule_def)

text \<open>A command that mentions docker goes to the Docker analysis before the disk-space test.\<close>

lemma fallback_docker_other:
  assumes "no_table_pattern (lower (stderr @ stdout))"
    and "str_in ''docker'' (lower command)"
    and "\<not> str_in ''cannot connect'' (lower (stderr @ stdout))"
    and "\<not> str_in ''image not found'' (lower (stderr @ stdout))"
    and "\<not> str_in ''pull access denied'' (lower (stderr @ stdout))"
    and "\<not> str_in ''container name already in use'' (lower (stderr @ stdout))"
  shows "dict_get (fallback_analyze command stdout stderr) ''severity'' = Some (JStr ''medium'')"
  using assms
  by (auto simp add: fallback_analyze_def no_table_pattern_iff diagnosis_def Let_def
      analyze_docker_error_def)

lemma analyze_error_no_client:
  "analyze_error None command stdout stderr ctx =
     Inr (fallback_analyze (take MAX_LENGTH command) (take MAX_LENGTH stdout)
            (take MAX_LENGTH stderr))"
  by (simp add: analyze_error_def Let_def)

text \<open>
  C4, as the code has it. With no classifier configured the analysis is the fallback on the
  truncated inputs, whatever the step context, and the first rule that applies decides:
  \<^item> \<open>permission denied\<close> gives \<open>modify_command\<close> with \<open>can_auto_retry\<close>, unless
    \<open>command not found\<close> occurs too;
  \<^item> the table's \<open>bind: address already in use\<close> and \<open>port is already allocated\<close> give
    \<open>modify_command\<close>, unless \<open>command not found\<close> or \<open>could not resolve host\<close> occurs;
  \<^item> a bare \<open>address already in use\<close> gives \<open>modify_command\<close> through the port-53 rule:
    no table pattern, a command without \<open>docker\<close> that contains \<open>53\<close> or \<open>adguard\<close>;
  \<^item> \<open>no space left\<close> gives \<open>manual_intervention\<close>, \<open>critical\<close> when no table pattern
    occurs, the command does not mention docker, and neither the port-53 rule nor the network
    rule applies.
\<close>

theorem C4_fallback_table:
  "(let cmd = take MAX_LENGTH command;
        text = error_text_of stdout stderr;
        r = analyze_error None command stdout stderr ctx
    in r = Inr (fallback_analyze cmd (take MAX_LENGTH stdout) (take MAX_LENGTH stderr))
     \<and> (str_in ''permission denied'' text \<and> \<not> str_in ''command not found'' text
          \<longrightarrow> field r ''fix_type'' = Some (JStr ''modify_command'')
              \<and> field r ''can_auto_retry'' = Some (JBool True))
     \<and> ((str_in ''bind: address already in use'' text \<or> str_in ''port is already allocated'' text)
          \<and> \<not> str_in ''command not found'' text \<and> \<not> str_in ''could not resolve host'' text
          \<longrightarrow> field r ''fix_type'' = Some (JStr ''modify_command''))
     \<and> (str_in ''address already in use'' text \<and> no_table_pattern text
          \<and> \<not> str_in ''docker'' (lower cmd)
          \<and> (str_in ''53'' cmd \<or> str_in ''adguard'' (lower cmd))
          \<longrightarrow> field r ''fix_type'' = Some (JStr ''modify_command''))
     \<and> (str_in ''no space left'' text \<and> no_table_pattern text
          \<and> \<not> str_in ''docker'' (lower cmd) \<and> \<not> port53_rule cmd text
          \<and> \<not> str_in ''connection refused'' text \<and> \<not> str_in ''connection timed out'' text
          \<longrightarrow> field r ''fix_type'' = Some (JStr ''manual_intervention'')
              \<and> field r ''severity'' = Some (JStr ''critical'')))"
  unfolding Let_def error_text_of_def
  using
    fallback_permission_denied[of "take MAX_LENGTH stderr" "take MAX_LENGTH stdout"
      "take MAX_LENGTH command"]
    fallback_port_patterns[of "take MAX_LENGTH stderr" "take MAX_LENGTH stdout"
      "take MAX_LENGTH command"]
    fallback_address_in_use[of "take MAX_LENGTH stderr" "take MAX_LENGTH stdout"
      "take MAX_LENGTH command"]
    fallback_no_space[of "take MAX_LENGTH stderr" "take MAX_LENGTH stdout"
      "take MAX_LENGTH command"]
  by (simp add: analyze_error_def field_def Let_def)

theorem C4_fallback_table_witness:
  "str_in ''permission denied'' (error_text_of [] ''ls: Permission denied'')
   \<and> \<not> str_in ''command not found'' (error_text_of [] ''ls: Permission denied'')
   \<and> field (analyze_error None ''ls /root'' [] ''ls: Permission denied'' (JObj []))
         ''fix_type'' = Some (JStr ''modify_command'')
   \<and> field (analyze_error None ''ls /root'' [] ''ls: Permission denied'' (JObj []))
         ''can_auto_retry'' = Some (JBool True)
   \<and> str_in ''port is already allocated'' (error_text_of [] ''Bind failed: port is already allocated'')
   \<and> field (analyze_error None ''docker run nginx'' [] ''Bind failed: port is already allocated''
          (JObj [])) ''fix_type'' = Some (JStr ''modify_command'')
   \<and> str_in ''address already in use'' (error_text_of [] ''listen udp: address already in use'')
   \<and> no_table_pattern (error_text_of [] ''listen udp: address already in use'')
   \<and> field (analyze_error None ''AdGuardHome -s run'' [] ''listen udp: address already in use''
          (JObj [])) ''fix_type'' = Some (JStr ''modify_command'')
   \<and> str_in ''no space left'' (error_text_of [] ''cp: No space left on device'')
   \<and> no_table_pattern (error_text_of [] ''cp: No space left on device'')
   \<and> field (analyze_error None ''cp a b'' [] ''cp: No space left on device'' (JObj []))
         ''fix_type'' = Some (JStr ''manual_intervention'')
   \<and> field (analyze_error None ''cp a b'' [] ''cp: No space left on device'' (JObj []))
         ''severity'' = Some (JStr ''critical'')"
proof -
  have t1: "error_text_of [] ''ls: Permission denied'' = ''ls: permission denied''"
    and t2: "error_text_of [] ''Bind failed: port is already allocated''
               = ''bind failed: port is already allocated''"
    and t3: "error_text_of [] ''listen udp: address already in use''
               = ''listen udp: address already in use''"
    and t4: "error_text_of [] ''cp: No space left on device'' = ''cp: no space left on device''"
    by (simp_all add: error_text_of_def MAX_LENGTH_def lower_def lower_char_if)
  have c1: "take MAX_LENGTH ''ls /root'' = ''ls /root''"
    and c2: "take MAX_LENGTH ''docker run nginx'' = ''docker run nginx''"
    and c3: "take MAX_LENGTH ''AdGuardHome -s run'' = ''AdGuardHome -s run''"
    and c4: "take MAX_LENGTH ''cp a b'' = ''cp a b''"
    by (simp_all add: MAX_LENGTH_def)
  have h1: "str_in ''permission denied'' ''ls: permission denied''"
      "\<not> str_in ''command not found'' ''ls: permission denied''"
    by (simp_all add: str_eval)
  have h2: "str_in ''port is already allocated'' ''bind failed: port is already allocated''"
      "\<not> str_in ''command not found'' ''bind failed: port is already allocated''"
      "\<not> str_in ''could not resolve host'' ''bind failed: port is already allocated''"
    by (simp_all add: str_eval)
  have h3: "str_in ''address already in use'' ''listen udp: address already in use''"
      "no_table_pattern ''listen udp: address already in use''"
      "\<not> str_in ''docker'' (lower ''AdGuardHome -s run'')"
      "str_in ''adguard'' (lower ''AdGuardHome -s run'')"
    unfolding no_table_pattern_unfold by (simp_all add: str_eval)
  have h4: "str_in ''no space left'' ''cp: no space left on device''"
      "no_table_pattern ''cp: no space left on device''"
      "\<not> str_in ''docker'' (lower ''cp a b'')"
      "\<not> port53_rule ''cp a b'' ''cp: no space left on device''"
      "\<not> str_in ''connection refused'' ''cp: no space left on device''"
      "\<not> str_in ''connection timed out'' ''cp: no space left on device''"
    unfolding no_table_pattern_unfold port53_rule_def by (simp_all add: str_eval)
  have r1: "field (analyze_error None ''ls /root'' [] ''ls: Permission denied'' (JObj []))
              ''fix_type'' = Some (JStr ''modify_command'')
          \<and> field (analyze_error None ''ls /root'' [] ''ls: Permission denied'' (JObj []))
              ''can_auto_retry'' = Some (JBool True)"
    using C4_fallback_table[of "''ls /root''" "[]" "''ls: Permission denied''" "JObj []"] h1
    unfolding Let_def t1 c1 by (elim conjE) (simp only: simp_thms)
  have r2: "field (analyze_error None ''docker run nginx'' []
              ''Bind failed: port is already allocated'' (JObj []))
              ''fix_type'' = Some (JStr ''modify_command'')"
    using C4_fallback_table[of "''docker run nginx''" "[]"
        "''Bind failed: port is already allocated''" "JObj []"] h2
    unfolding Let_def t2 c2 by (elim conjE) (simp only: simp_thms)
  have r3: "field (analyze_error None ''AdGuardHome -s run'' []
              ''listen udp: address already in use'' (JObj []))
              ''fix_type'' = Some (JStr ''modify_command'')"
    using C4_fallback_table[of "''AdGuardHome -s run''" "[]"
        "''listen udp: address already in use''" "JObj []"] h3
    unfolding Let_def t3 c3 by (elim conjE) (simp only: simp_thms)
  have r4: "field (analyze_error None ''cp a b'' [] ''cp: No space left on device'' (JObj []))
              ''fix_type'' = Some (JStr ''manual_intervention'')
          \<and> field (analyze_error None ''cp a b'' [] ''cp: No space left on device'' (JObj []))
              ''severity'' = Some (JStr ''critical'')"
    using C4_fallback_table[of "''cp a b''" "[]" "''cp: No space left on device''" "JObj []"] h4
    unfolding Let_def t4 c4 by (elim conjE) (simp only: simp_thms)
  show ?thesis
    unfolding t1 t2 t3 t4 using h1 h2(1) h3(1,2) h4(1,2) r1 r2 r3 r4
    by (simp only: simp_thms)
qed

text \<open>
  C4 as stated fails three times. A stderr with \<open>permission denied\<close> after
  \<open>command not found\<close> is diagnosed \<open>install_dependency\<close> without auto-retry; \<open>address
  already in use\<close> without the table's \<open>bind: \<close> in front, from a command that names neither
  port 53 nor AdGuard, is diagnosed \<open>manual_intervention\<close>; \<open>no space left\<close> from a docker
  command is the generic Docker diagnosis of severity \<open>medium\<close>.
\<close>

theorem C4_counterexample:
  "str_in ''permission denied''
      (error_text_of [] ''sh: foo: command not found; sh: Permission denied'')
   \<and> field (analyze_error None ''./run.sh'' []
              ''sh: foo: command not found; sh: Permission denied'' (JObj []))
         ''fix_type'' = Some (JStr ''install_dependency'')
   \<and> field (analyze_error None ''./run.sh'' []
              ''sh: foo: command not found; sh: Permission denied'' (JObj []))
         ''can_auto_retry'' = Some (JBool False)
   \<and> str_in ''address already in use''
        (error_text_of [] ''OSError: [Errno 98] Address already in use'')
   \<and> field (analyze_error None ''python3 -m http.server'' []
              ''OSError: [Errno 98] Address already in use'' (JObj []))
         ''fix_type'' = Some (JStr ''manual_intervention'')
   \<and> str_in ''no space left'' (error_text_of [] ''write /var/lib/docker: no space left on device'')
   \<and> field (analyze_error None ''docker pull nginx'' []
              ''write /var/lib/docker: no space left on device'' (JObj []))
         ''severity'' = Some (JStr ''medium'')"
proof -
  have t1: "lower (''sh: foo: command not found; sh: Permission denied'' @ [])
              = ''sh: foo: command not found; sh: permission denied''"
    and t2: "lower (''OSError: [Errno 98] Address already in use'' @ [])
              = ''oserror: [errno 98] address already in use''"
    and t3: "lower (''write /var/lib/docker: no space left on device'' @ [])
              = ''write /var/lib/docker: no space left on device''"
    and c2: "lower ''python3 -m http.server'' = ''python3 -m http.server''"
    and c3: "lower ''docker pull nginx'' = ''docker pull nginx''"
    by (simp_all add: lower_def lower_char_if)
  have k: "take MAX_LENGTH ''sh: foo: command not found; sh: Permission denied''
              = ''sh: foo: command not found; sh: Permission denied''"
      "take MAX_LENGTH ''OSError: [Errno 98] Address already in use''
              = ''OSError: [Errno 98] Address already in use''"
      "take MAX_LENGTH ''write /var/lib/docker: no space left on device''
              = ''write /var/lib/docker: no space left on device''"
      "take MAX_LENGTH ''./run.sh'' = ''./run.sh''"
      "take MAX_LENGTH ''python3 -m http.server'' = ''python3 -m http.server''"
      "take MAX_LENGTH ''docker pull nginx'' = ''docker pull nginx''"
      "take MAX_LENGTH [] = ([] :: string)"
    by (simp_all add: MAX_LENGTH_def)
  have a: "str_in ''permission denied'' ''sh: foo: command not found; sh: permission denied''"
      "str_in ''command not found'' ''sh: foo: command not found; sh: permission denied''"
    by (simp_all add: str_eval)
  have c: "str_in ''address already in use'' ''oserror: [errno 98] address already in use''"
      "no_table_pattern ''oserror: [errno 98] address already in use''"
      "\<not> str_in ''docker'' ''python3 -m http.server''"
      "\<not> port53_rule ''python3 -m http.server'' ''oserror: [errno 98] address already in use''"
      "\<not> str_in ''connection refused'' ''oserror: [errno 98] address already in use''"
      "\<not> str_in ''connection timed out'' ''oserror: [errno 98] address already in use''"
      "\<not> str_in ''no space left'' ''oserror: [errno 98] address already in use''"
      "\<not> str_in ''disk full'' ''oserror: [errno 98] address already in use''"
      "\<not> str_in ''apt'' ''python3 -m http.server''"
    unfolding no_table_pattern_unfold port53_rule_def c2 by (simp_all add: str_eval)
  have e: "str_in ''no space left'' ''write /var/lib/docker: no space left on device''"
      "no_table_pattern ''write /var/lib/docker: no space left on device''"
      "str_in ''docker'' ''docker pull nginx''"
      "\<not> str_in ''cannot connect'' ''write /var/lib/docker: no space left on device''"
      "\<not> str_in ''image not found'' ''write /var/lib/docker: no space left on device''"
      "\<not> str_in ''pull access denied'' ''write /var/lib/docker: no space left on device''"
      "\<not> str_in ''container name already in use''
          ''write /var/lib/docker: no space left on device''"
    unfolding no_table_pattern_unfold by (simp_all add: str_eval)
  have b: "field (analyze_error None ''./run.sh'' []
              ''sh: foo: command not found; sh: Permission denied'' (JObj []))
              ''fix_type'' = Some (JStr ''install_dependency'')"
      "field (analyze_error None ''./run.sh'' []
              ''sh: foo: command not found; sh: Permission denied'' (JObj []))
              ''can_auto_retry'' = Some (JBool False)"
    unfolding analyze_error_no_client field_def sum.case k
    using fallback_command_not_found[of "''sh: foo: command not found; sh: Permission denied''"
        "[]" "''./run.sh''"] a(2)
    unfolding t1 by (simp_all only: simp_thms)
  have d: "field (analyze_error None ''python3 -m http.server'' []
              ''OSError: [Errno 98] Address already in use'' (JObj []))
              ''fix_type'' = Some (JStr ''manual_intervention'')"
    unfolding analyze_error_no_client field_def sum.case k
    using fallback_unknown[of "''OSError: [Errno 98] Address already in use''" "[]"
        "''python3 -m http.server''"] c(2-9)
    unfolding t2 c2 by (simp only: simp_thms)
  have f: "field (analyze_error None ''docker pull nginx'' []
              ''write /var/lib/docker: no space left on device'' (JObj []))
              ''severity'' = Some (JStr ''medium'')"
    unfolding analyze_error_no_client field_def sum.case k
    using fallback_docker_other[of "''write /var/lib/docker: no space left on device''" "[]"
        "''docker pull nginx''"] e(2-7)
    unfolding t3 c3 by (simp only: simp_thms)
  have x: "error_text_of [] ''sh: foo: command not found; sh: Permission denied''
              = ''sh: foo: command not found; sh: permission denied''"
      "error_text_of [] ''OSError: [Errno 98] Address already in use''
              = ''oserror: [errno 98] address already in use''"
      "error_text_of [] ''write /var/lib/docker: no space left on device''
              = ''write /var/lib/docker: no space left on device''"
    unfolding error_text_of_def k using t1 t2 t3 by (simp_all only: append_Nil2)
  show ?thesis
    unfolding x using a(1) b c(1) d e(1) f by (simp only: simp_thms)
qed

section \<open>The analyzer always returns\<close>

lemma match_common_diagnosis:
  "match_common table t = Some d \<Longrightarrow> \<exists>an sv sf ft al ca ex. d = diagnosis an sv sf ft al ca ex"
proof (induction table t rule: match_common.induct)
  case (1 error_text)
  then show ?case by simp
next
  case (2 pattern fix_type suggestion rest error_text)
  show ?case
  proof (cases "str_in pattern error_text")
    case True
    with 2(2) show ?thesis by (simp del: append.simps) blast
  next
    case False
    with 2 show ?thesis by simp
  qed
qed

lemma fallback_analyze_diagnosis:
  "\<exists>an sv sf ft al ca ex. fallback_analyze command stdout stderr = diagnosis an sv sf ft al ca ex"
proof -
  define P where "P x \<longleftrightarrow> (\<exists>an sv sf ft al ca ex. x = diagnosis an sv sf ft al ca ex)" for x
  have D: "P (diagnosis an sv sf ft al ca ex)" for an sv sf ft al ca ex
    unfolding P_def by blast
  have "P (fallback_analyze command stdout stderr)"
  proof (cases "match_common common_fixes (lower (stderr @ stdout))")
    case None
    then show ?thesis
      by (simp add: fallback_analyze_def Let_def analyze_docker_error_def analyze_apt_error_def D)
  next
    case (Some d)
    then show ?thesis
      using match_common_diagnosis[OF Some] by (simp add: fallback_analyze_def Let_def P_def)
  qed
  then show ?thesis unfolding P_def .
qed

lemma is_diagnosis_diagnosis: "is_diagnosis (diagnosis an sv sf ft al ca ex)"
  by (simp add: diagnosis_def required_fields_def)

lemma fallback_analyze_is_diagnosis: "is_diagnosis (fallback_analyze command stdout stderr)"
  using fallback_analyze_diagnosis[of command stdout stderr] is_diagnosis_diagnosis by auto

lemma keys_dict_set: "fst ` set (dict_set kvs k v) = insert k (fst ` set kvs)"
proof (induction kvs)
  case Nil
  then show ?case by simp
next
  case (Cons kv kvs)
  obtain k' v' where kv: "kv = (k', v')" by (cases kv)
  show ?case using Cons unfolding kv by (cases "k' = k") auto
qed

lemma backfill_dict:
  "\<exists>kvs'. backfill k dflt (JObj kvs) = Inr (JObj kvs')
      \<and> set (map fst kvs') = insert k (fst ` set kvs)"
proof (cases "k \<in> fst ` set kvs")
  case True
  then show ?thesis by (simp add: backfill_def insert_absorb)
next
  case False
  then show ?thesis by (simp add: backfill_def keys_dict_set)
qed

lemma backfill_explanation_dict:
  assumes "''analysis'' \<in> fst ` set kvs"
  shows "\<exists>kvs'. backfill_explanation (JObj kvs) = Inr (JObj kvs')
      \<and> set (map fst kvs') = insert ''explanation_for_user'' (fst ` set kvs)"
proof -
  from assms obtain a where "map_of kvs ''analysis'' = Some a"
    by (metis map_of_eq_None_iff not_Some_eq)
  then show ?thesis
    by (cases "''explanation_for_user'' \<in> fst ` set kvs")
       (simp_all add: backfill_explanation_def keys_dict_set insert_absorb)
qed

lemma backfill_dictE:
  obtains kvs' where "backfill k dflt (JObj kvs) = Inr (JObj kvs')"
    and "fst ` set kvs' = insert k (fst ` set kvs)"
  using backfill_dict[of k dflt kvs] by auto

lemma backfill_explanation_dictE:
  assumes "''analysis'' \<in> fst ` set kvs"
  obtains kvs' where "backfill_explanation (JObj kvs) = Inr (JObj kvs')"
    and "fst ` set kvs' = insert ''explanation_for_user'' (fst ` set kvs)"
  using backfill_explanation_dict[OF assms] by auto

lemma validate_fields_dict:
  "\<exists>kvs'. validate_fields (JObj kvs) = Inr (JObj kvs') \<and> is_diagnosis (JObj kvs')"
proof -
  obtain k1 where 1: "backfill ''analysis'' (JStr ''Unknown error occurred'') (JObj kvs) = Inr (JObj k1)"
    "fst ` set k1 = insert ''analysis'' (fst ` set kvs)" by (rule backfill_dictE)
  obtain k2 where 2: "backfill ''severity'' (JStr ''medium'') (JObj k1) = Inr (JObj k2)"
    "fst ` set k2 = insert ''severity'' (fst ` set k1)" by (rule backfill_dictE)
  obtain k3 where 3: "backfill ''suggested_fix'' (JStr ''Check error logs for details'') (JObj k2) = Inr (JObj k3)"
    "fst ` set k3 = insert ''suggested_fix'' (fst ` set k2)" by (rule backfill_dictE)
  obtain k4 where 4: "backfill ''fix_type'' (JStr ''manual_intervention'') (JObj k3) = Inr (JObj k4)"
    "fst ` set k4 = insert ''fix_type'' (fst ` set k3)" by (rule backfill_dictE)
  obtain k5 where 5: "backfill ''can_auto_retry'' (JBool False) (JObj k4) = Inr (JObj k5)"
    "fst ` set k5 = insert ''can_auto_retry'' (fst ` set k4)" by (rule backfill_dictE)
  have "''analysis'' \<in> fst ` set k5" unfolding 5(2) 4(2) 3(2) 2(2) 1(2)
    by (intro insertI1 insertI2)
  then obtain k6 where
    6: "backfill_explanation (JObj k5) = Inr (JObj k6)"
    "fst ` set k6 = insert ''explanation_for_user'' (fst ` set k5)"
    by (rule backfill_explanation_dictE)
  have v: "validate_fields (JObj kvs) = Inr (JObj k6)"
    unfolding validate_fields_def by (simp only: 1(1) 2(1) 3(1) 4(1) 5(1) 6(1) sum.case)
  have "is_diagnosis (JObj k6)"
    by (simp add: required_fields_def 6(2) 5(2) 4(2) 3(2) 2(2) 1(2))
  with v show ?thesis by blast
qed


lemma parsing_failed_fallback:
  "\<exists>d. parsing_failed (fallback_analyze command stdout stderr) = Inr d \<and> is_diagnosis d"
proof -
  obtain an sv sf ft al ca ex where
    d: "fallback_analyze command stdout stderr = diagnosis an sv sf ft al ca ex"
    using fallback_analyze_diagnosis by blast
  show ?thesis unfolding d
    by (simp add: parsing_failed_def diagnosis_def required_fields_def)
qed

text \<open>
  Whatever the classifier does, \<^verbatim>\<open>analyze_error\<close> returns a value: every exception of
  \<^verbatim>\<open>_gpt_analyze\<close> ends in the fallback.
\<close>

lemma analyze_error_never_raises:
  "\<exists>d. analyze_error client command stdout stderr ctx = Inr d"
  by (cases client) (auto simp: analyze_error_def Let_def split: sum.splits)

lemma gpt_analyze_diagnosis:
  assumes "gpt_analyze (Some cl) command stdout stderr ctx = Inr d"
    and "\<And>content v. json_loads cl content = Some v \<Longrightarrow> is_dict v"
  shows "is_diagnosis d"
proof -
  { fix content v assume l: "json_loads cl content = Some v" and r: "validate_fields v = Inr d"
    from assms(2)[OF l] obtain kvs where "v = JObj kvs" by (cases v) auto
    with r validate_fields_dict[of kvs] have "is_diagnosis d" by auto }
  moreover
  { assume "parsing_failed (fallback_analyze command stdout stderr) = Inr d"
    with parsing_failed_fallback[of command stdout stderr] have "is_diagnosis d" by auto }
  ultimately show ?thesis
    using assms(1)
    by (auto simp: gpt_analyze_def split: gpt_reply.splits option.splits if_splits)
qed

text \<open>
  When the reply, where it is valid JSON at all, is a JSON object, the value returned is a
  Diagnosis: the fallback's, or the reply with its missing fields filled in.
\<close>

lemma analyze_error_diagnosis_for_objects:
  assumes "case client of None \<Rightarrow> True
           | Some cl \<Rightarrow> \<forall>content v. json_loads cl content = Some v \<longrightarrow> is_dict v"
  shows "\<exists>d. analyze_error client command stdout stderr ctx = Inr d \<and> is_diagnosis d"
proof (cases client)
  case None
  then show ?thesis by (simp add: analyze_error_def Let_def fallback_analyze_is_diagnosis)
next
  case (Some cl)
  with assms have j: "\<And>content v. json_loads cl content = Some v \<Longrightarrow> is_dict v" by simp
  show ?thesis
    using Some gpt_analyze_diagnosis[OF _ j] fallback_analyze_is_diagnosis
    by (auto simp: analyze_error_def Let_def split: sum.splits)
qed

text \<open>
  C9. The classifier is configured and its reply is valid JSON, but a list holding the names
  of the six fields. Every membership test of the validation block succeeds on the list, so
  \<^verbatim>\<open>_gpt_analyze\<close> returns the list and \<^verbatim>\<open>analyze_error\<close> hands it to its caller: no
  exception, but no Diagnosis either, and no fallback to the pattern table.
\<close>

theorem C9_list_reply_returned:
  "analyze_error (Some list_reply) ''ls /root'' '''' ''ls: Permission denied'' (JObj [])
     = Inr (JArr [JStr ''analysis'', JStr ''severity'', JStr ''suggested_fix'', JStr ''fix_type'',
                  JStr ''can_auto_retry'', JStr ''explanation_for_user''])
   \<and> is_diagnosis (JArr [JStr ''analysis'', JStr ''severity'', JStr ''suggested_fix'',
                  JStr ''fix_type'', JStr ''can_auto_retry'', JStr ''explanation_for_user'']) = False"
  by (simp add: analyze_error_def gpt_analyze_def list_reply_def validate_fields_def backfill_def
      backfill_explanation_def required_fields_def Let_def)

section \<open>State store: creating a session twice\<close>

lemma find_after_replace:
  "find (\<lambda>r. ses_session_id r = sid) (filter (\<lambda>r. ses_session_id r \<noteq> sid) rows @ [x])
     = (if ses_session_id x = sid then Some x else None)"
  by (induction rows) auto

text \<open>
  C10. \<^verbatim>\<open>create_session\<close> on an id that is already in \<^verbatim>\<open>sessions\<close> leaves exactly one row
  for that id, the new one: \<^verbatim>\<open>current_step\<close> is 0, \<^verbatim>\<open>status\<close> is \<^verbatim>\<open>in_progress\<close>, both
  timestamps are the time of the call, and the three snapshots are the arguments. The rows of
  the other sessions and the whole of \<^verbatim>\<open>execution_state\<close> are as before.
\<close>

theorem C10_create_session_replaces:
  assumes "session_id \<in> set (map ses_session_id (sessions d))"
  shows "(let d' = snd (create_session d session_id hardware requirements plan now)
          in (\<exists>r. filter (\<lambda>r. ses_session_id r = session_id) (sessions d') = [r]
                  \<and> get_session d' session_id = Some r
                  \<and> ses_current_step r = 0 \<and> ses_status r = ''in_progress''
                  \<and> ses_created_at r = now \<and> ses_updated_at r = now
                  \<and> ses_hardware_profile r = hardware \<and> ses_user_requirements r = requirements
                  \<and> ses_plan_json r = plan)
           \<and> filter (\<lambda>r. ses_session_id r \<noteq> session_id) (sessions d')
               = filter (\<lambda>r. ses_session_id r \<noteq> session_id) (sessions d)
           \<and> execution_state d' = execution_state d)"
  by (simp add: create_session_def get_session_def Let_def find_after_replace)

lemma used_db_eq:
  "used_db =
     \<lparr> execution_state =
         [\<lparr> row_session_id = ''s1'', row_step_number = 1, row_step_name = ''one'',
             row_status = ''completed'', row_result = None, row_timestamp = ''t1'' \<rparr>,
          \<lparr> row_session_id = ''s1'', row_step_number = 2, row_step_name = ''two'',
             row_status = ''failed'', row_result = None, row_timestamp = ''t2'' \<rparr>],
       sessions =
         [\<lparr> ses_id = 1, ses_session_id = ''s1'', ses_hardware_profile = JObj [],
             ses_user_requirements = JObj [], ses_plan_json = JObj [],
             ses_current_step = 2, ses_status = ''failed'',
             ses_created_at = ''t0'', ses_updated_at = ''t3'' \<rparr>] \<rparr>"
  by (simp add: used_db_def complete_session_def update_step_def create_session_def init_db_def
      new_rowid_def)

theorem C10_create_session_replaces_witness:
  "''s1'' \<in> set (map ses_session_id (sessions used_db))
   \<and> map ses_current_step (sessions used_db) = [2]
   \<and> map ses_status (sessions used_db) = [''failed'']
   \<and> length (execution_state used_db) = 2
   \<and> (let d' = snd (create_session used_db ''s1'' (JObj []) (JObj []) (JObj []) ''t9'')
      in (\<exists>r. filter (\<lambda>r. ses_session_id r = ''s1'') (sessions d') = [r]
              \<and> get_session d' ''s1'' = Some r
              \<and> ses_current_step r = 0 \<and> ses_status r = ''in_progress''
              \<and> ses_created_at r = ''t9'' \<and> ses_updated_at r = ''t9''
              \<and> ses_hardware_profile r = JObj [] \<and> ses_user_requirements r = JObj []
              \<and> ses_plan_json r = JObj [])
       \<and> filter (\<lambda>r. ses_session_id r \<noteq> ''s1'') (sessions d')
           = filter (\<lambda>r. ses_session_id r \<noteq> ''s1'') (sessions used_db)
       \<and> execution_state d' = execution_state used_db)"
proof -
  have h: "''s1'' \<in> set (map ses_session_id (sessions used_db))"
    by (simp add: used_db_eq)
  have pre: "map ses_current_step (sessions used_db) = [2]"
    "map ses_status (sessions used_db) = [''failed'']"
    "length (execution_state used_db) = 2"
    by (simp_all add: used_db_eq)
  note C10_create_session_replaces[OF h, of "JObj []" "JObj []" "JObj []" "''t9''"]
  with h pre show ?thesis by (intro conjI)
qed

section \<open>Which steps a plan run enters\<close>

text \<open>Only \<^verbatim>\<open>execute_plan\<close> writes the observation \<open>entered\<close>.\<close>

lemma spawn_process_entered [simp]: "entered (snd (spawn_process env sp w)) = entered w"
  by (simp add: spawn_process_def Let_def)

lemma run_command_entered [simp]: "entered (snd (run_command env c t w)) = entered w"
  by (cases c) simp_all

lemma read_input_entered [simp]: "entered (snd (read_input w)) = entered w"
  by (simp add: read_input_def split: list.splits)

lemma record_step_entered [simp]: "entered (record_step env sid step status result w) = entered w"
  by (simp add: record_step_def)

lemma confirm_step_entered [simp]: "entered (snd (confirm_step eng step w)) = entered w"
proof (cases "read_input w")
  case (Pair r w1)
  then have "entered w1 = entered w" using read_input_entered[of w] by simp
  with Pair show ?thesis
    by (cases r) (simp_all add: confirm_step_def Let_def)
qed

lemma run_or_dry_entered [simp]: "entered (snd (run_or_dry env eng cmd t w)) = entered w"
  by (simp add: run_or_dry_def)

lemma command_loop_entered [simp]:
  "entered (snd (command_loop env eng sid step t cmds lst w)) = entered w"
proof (induction cmds arbitrary: lst w)
  case Nil
  then show ?case by simp
next
  case (Cons cmd cmds)
  show ?case
  proof (cases "fst (validate_command cmd)")
    case False
    then show ?thesis by (simp add: Let_def)
  next
    case True
    obtain c w1 where cs: "confirm_step eng step w = (c, w1)" by (cases "confirm_step eng step w")
    then have e1: "entered w1 = entered w" using confirm_step_entered[of eng step w] by simp
    show ?thesis
    proof (cases c)
      case (Inl e)
      with True cs e1 show ?thesis by simp
    next
      case (Inr go)
      show ?thesis
      proof (cases go)
        case False
        with True cs e1 Inr show ?thesis by (simp add: Let_def)
      next
        case go: True
        obtain r w2 where rs: "run_or_dry env eng cmd t w1 = (r, w2)"
          by (cases "run_or_dry env eng cmd t w1")
        then have e2: "entered w2 = entered w" using run_or_dry_entered[of env eng cmd t w1] e1 by simp
        show ?thesis
        proof (cases r)
          case (Inl e)
          with True cs Inr go rs e2 show ?thesis by simp
        next
          case res: (Inr result)
          with True cs Inr go rs e2 Cons.IH[of "Some result" w2] show ?thesis by simp
        qed
      qed
    qed
  qed
qed

lemma verify_step_entered [simp]: "entered (snd (verify_step env eng step w)) = entered w"
proof (cases "st_check_command step")
  case None
  then show ?thesis by (simp add: verify_step_def)
next
  case (Some c)
  obtain r w1 where rc: "run_command env (JStr c) 30 w = (r, w1)"
    by (cases "run_command env (JStr c) 30 w")
  then have "entered w1 = entered w" using run_command_entered[of env "JStr c" 30 w] by simp
  with Some rc show ?thesis by (cases r) (simp_all add: verify_step_def del: run_command.simps)
qed

lemma execute_step_entered [simp]: "entered (snd (execute_step env eng step t w)) = entered w"
proof (cases "active_session eng")
  case None
  then show ?thesis by (simp add: execute_step_def)
next
  case (Some sid)
  show ?thesis
  proof (cases "step_commands step = []")
    case True
    with Some show ?thesis by (simp add: execute_step_def Let_def)
  next
    case False
    obtain r w1 where cl: "command_loop env eng sid step t (step_commands step) None w = (r, w1)"
      by (cases "command_loop env eng sid step t (step_commands step) None w")
    then have e1: "entered w1 = entered w"
      using command_loop_entered[of env eng sid step t "step_commands step" None w] by simp
    obtain v w2 where vs: "verify_step env eng step w1 = (v, w2)"
      by (cases "verify_step env eng step w1")
    then have e2: "entered w2 = entered w" using verify_step_entered[of env eng step w1] e1 by simp
    show ?thesis
      using Some False cl e1 vs e2
      by (simp add: execute_step_def split: sum.splits loop_exit.splits option.splits)
  qed
qed


text \<open>
  The recovery block enters the failed step again at most once, and only that step.
\<close>

lemma recover_entered:
  "\<exists>xs. entered (snd (recover env eng step step_num result w)) = entered w @ xs
        \<and> set xs \<subseteq> {step_num} \<and> length xs \<le> 1"
proof (cases "active_session eng")
  case None
  then show ?thesis by (simp add: recover_def)
next
  case (Some sid)
  obtain a where a: "analyze_error (recovery_client env) (recovery_command step) (res_stdout result)
                  (res_stderr result) (step_context step step_num sid) = a" by simp
  show ?thesis
  proof (cases a)
    case (Inl e)
    with Some a show ?thesis by (simp add: recover_def)
  next
    case (Inr analysis)
    show ?thesis
    proof (cases "is_dict analysis \<and> truthy (dict_get analysis ''can_auto_retry'') \<and> \<not> dry_run eng")
      case False
      with Some a Inr show ?thesis by (auto simp: recover_def)
    next
      case True
      obtain l w1 where ri: "read_input w = (l, w1)" by (cases "read_input w")
      then have e1: "entered w1 = entered w" using read_input_entered[of w] by simp
      show ?thesis
      proof (cases l)
        case (Inl e)
        with Some a Inr True ri e1 show ?thesis by (simp add: recover_def)
      next
        case line: (Inr line)
        obtain f w2 where rc: "run_command env (get_or_null analysis ''suggested_fix'') 60 w1 = (f, w2)"
          by (cases "run_command env (get_or_null analysis ''suggested_fix'') 60 w1")
        then have e2: "entered w2 = entered w"
          using run_command_entered[of env "get_or_null analysis ''suggested_fix''" 60 w1] e1 by simp
        obtain r w3 where es: "execute_step env eng step 300 (w2\<lparr> entered := entered w2 @ [step_num] \<rparr>) = (r, w3)"
          by (cases "execute_step env eng step 300 (w2\<lparr> entered := entered w2 @ [step_num] \<rparr>)")
        then have e3: "entered w3 = entered w @ [step_num]"
          using execute_step_entered[of env eng step 300 "w2\<lparr> entered := entered w2 @ [step_num] \<rparr>"] e2
          by simp
        show ?thesis
          using Some a Inr True ri e1 line rc e2 es e3
          by (simp add: recover_def Let_def split: sum.splits)
      qed
    qed
  qed
qed

lemma plan_loop_entered:
  "\<exists>xs. entered (snd (plan_loop env eng completed resume_from isteps results w)) = entered w @ xs
        \<and> set xs \<inter> set completed = {}"
proof (induction isteps arbitrary: results w)
  case Nil
  then show ?case by simp
next
  case (Cons istep rest)
  obtain i step where istep: "istep = (i, step)" by (cases istep)
  define step_num where "step_num = step_number_or step (int i)"
  show ?case
  proof (cases "step_num \<in> set completed \<or> step_num < resume_from")
    case True
    then show ?thesis
      using Cons.IH[of results w] unfolding istep by (auto simp: Let_def step_num_def)
  next
    case False
    obtain r w1 where es: "execute_step env eng step 300 (w\<lparr> entered := entered w @ [step_num] \<rparr>) = (r, w1)"
      by (cases "execute_step env eng step 300 (w\<lparr> entered := entered w @ [step_num] \<rparr>)")
    then have e1: "entered w1 = entered w @ [step_num]"
      using execute_step_entered[of env eng step 300 "w\<lparr> entered := entered w @ [step_num] \<rparr>"] by simp
    show ?thesis
    proof (cases r)
      case (Inl e)
      with False es e1 show ?thesis unfolding istep by (simp add: Let_def step_num_def[symmetric])
    next
      case (Inr result)
      show ?thesis
      proof (cases "res_success result")
        case True
        from Cons.IH[of "results @ [result]" w1] obtain xs where
          xs: "entered (snd (plan_loop env eng completed resume_from rest (results @ [result]) w1)) = entered w1 @ xs"
            "set xs \<inter> set completed = {}" by blast
        have "entered (snd (plan_loop env eng completed resume_from (istep # rest) results w))
                = entered w @ (step_num # xs)"
          using False es Inr True xs(1) e1 unfolding istep
          by (simp add: Let_def step_num_def[symmetric])
        moreover have "set (step_num # xs) \<inter> set completed = {}" using xs(2) False by simp
        ultimately show ?thesis by blast
      next
        case fail: False
        obtain rr w2 where rec: "recover env eng step step_num result w1 = (rr, w2)"
          by (cases "recover env eng step step_num result w1")
        from recover_entered[of env eng step step_num result w1] rec obtain ys where
          ys: "entered w2 = entered w1 @ ys" "set ys \<subseteq> {step_num}" by auto
        have ys': "set (step_num # ys) \<inter> set completed = {}" using ys(2) False by auto
        show ?thesis
        proof (cases rr)
          case (Inl e)
          have "entered (snd (plan_loop env eng completed resume_from (istep # rest) results w))
                = entered w @ (step_num # ys)"
            using False es Inr fail rec Inl ys(1) e1 unfolding istep
            by (simp add: Let_def step_num_def[symmetric])
          with ys' show ?thesis by blast
        next
          case cont: (Inr ro)
          show ?thesis
          proof (cases ro)
            case None
            have "entered (snd (plan_loop env eng completed resume_from (istep # rest) results w))
                = entered w @ (step_num # ys)"
              using False es Inr fail rec cont None ys(1) e1 unfolding istep
              by (simp add: Let_def step_num_def[symmetric])
            with ys' show ?thesis by blast
          next
            case (Some result')
            from Cons.IH[of "results @ [result']" w2] obtain xs where
              xs: "entered (snd (plan_loop env eng completed resume_from rest (results @ [result']) w2)) = entered w2 @ xs"
                "set xs \<inter> set completed = {}" by blast
            have "entered (snd (plan_loop env eng completed resume_from (istep # rest) results w))
                = entered w @ (step_num # ys @ xs)"
              using False es Inr fail rec cont Some ys(1) e1 xs(1) unfolding istep
              by (simp add: Let_def step_num_def[symmetric])
            moreover have "set (step_num # ys @ xs) \<inter> set completed = {}"
              using ys' xs(2) by auto
            ultimately show ?thesis by blast
          qed
        qed
      qed
    qed
  qed
qed

text \<open>
  C3. With an active session, every step that a run of \<^verbatim>\<open>execute_plan\<close> enters, first time
  or as the retry after a fix, has a step number outside the steps the state store records as
  completed for the session when the run starts, whatever \<^verbatim>\<open>resume_from\<close> is.
\<close>

theorem C3_resume_idempotence:
  assumes "active_session eng = Some sid"
  shows "\<exists>xs. entered (snd (execute_plan env eng steps resume_from w)) = entered w @ xs
          \<and> set xs \<inter> set (get_completed_steps (store w) sid) = {}"
proof -
  have c: "completed_at_start eng w = get_completed_steps (store w) sid"
    using assms by (simp add: completed_at_start_def)
  obtain r w1 where pl: "plan_loop env eng (completed_at_start eng w) resume_from
             (enumerate 0 steps) [] w = (r, w1)"
    by (cases "plan_loop env eng (completed_at_start eng w) resume_from (enumerate 0 steps) [] w")
  from plan_loop_entered[of env eng "completed_at_start eng w" resume_from "enumerate 0 steps" "[]" w] pl
  obtain xs where xs: "entered w1 = entered w @ xs" "set xs \<inter> set (completed_at_start eng w) = {}"
    by auto
  have "entered (snd (execute_plan env eng steps resume_from w)) = entered w1"
    using pl assms by (cases r) (simp_all add: execute_plan_def)
  with xs c show ?thesis by auto
qed

section \<open>Validation fails closed\<close>

lemma validate_rejects:
  assumes "strip c = [] \<or> list_ex (\<lambda>p. lower p = p \<and> str_in (lower p) (lower c)) DANGEROUS_PATTERNS"
  shows "\<not> fst (validate_command c)"
proof (cases "c = [] \<or> strip c = []")
  case True
  then show ?thesis by (simp add: validate_command_def)
next
  case False
  with assms obtain p where p: "p \<in> set DANGEROUS_PATTERNS" "lower p = p" "str_in (lower p) (lower c)"
    by (auto simp: list_ex_iff)
  then have "find (\<lambda>pattern. str_in pattern (lower c)) DANGEROUS_PATTERNS \<noteq> None"
    by (auto simp: find_None_iff)
  with False show ?thesis by (auto simp: validate_command_def)
qed

lemma validate_accepts_nonblank: "fst (validate_command c) \<Longrightarrow> strip c \<noteq> []"
  by (auto simp: validate_command_def split: if_splits)

lemma record_step_spawned [simp]: "spawned (record_step env sid step status result w) = spawned w"
  by (simp add: record_step_def)

lemma read_input_spawned [simp]: "spawned (snd (read_input w)) = spawned w"
  by (simp add: read_input_def split: list.splits)

lemma read_input_error: "fst (read_input w) = Inl e \<Longrightarrow> e = EOFError"
  by (simp add: read_input_def split: list.splits)

lemma confirm_step_spawned [simp]: "spawned (snd (confirm_step eng step w)) = spawned w"
proof (cases "read_input w")
  case (Pair r w1)
  then have "spawned w1 = spawned w" using read_input_spawned[of w] by simp
  with Pair show ?thesis by (cases r) (simp_all add: confirm_step_def Let_def)
qed

lemma confirm_step_error: "fst (confirm_step eng step w) = Inl e \<Longrightarrow> e = EOFError"
proof (cases "read_input w")
  case (Pair r w1)
  assume a: "fst (confirm_step eng step w) = Inl e"
  show ?thesis
  proof (cases r)
    case (Inl e')
    with Pair read_input_error[of w e'] a show ?thesis
      by (simp add: confirm_step_def split: if_splits)
  next
    case (Inr line)
    with Pair a show ?thesis by (simp add: confirm_step_def Let_def split: if_splits)
  qed
qed

lemma run_or_dry_shell:
  assumes "strip cmd \<noteq> []"
  shows "\<exists>r. fst (run_or_dry env eng cmd t w) = Inr r"
    and "spawned (snd (run_or_dry env eng cmd t w))
           = spawned w @ (if dry_run eng then [] else [Shell cmd (effective_timeout t)])"
  using assms by (simp_all add: run_or_dry_def spawn_process_def Let_def)

lemma command_loop_rejected:
  assumes "\<not> fst (validate_command c)"
  shows "\<exists>k\<le>length pre.
           spawned (snd (command_loop env eng sid step t (pre @ c # post) lst w))
             = spawned w @ (if dry_run eng then []
                            else map (\<lambda>x. Shell x (effective_timeout t)) (take k pre))
         \<and> (case fst (command_loop env eng sid step t (pre @ c # post) lst w) of
               Inl e \<Rightarrow> e = EOFError
             | Inr (Returned r) \<Rightarrow> \<not> res_success r
             | Inr (Finished r) \<Rightarrow> False)"
proof (induction pre arbitrary: lst w)
  case Nil
  show ?case using assms by (simp add: Let_def failure_def)
next
  case (Cons cmd pre)
  let ?run = "command_loop env eng sid step t ((cmd # pre) @ c # post) lst w"
  let ?sh = "\<lambda>x. Shell x (effective_timeout t)"
  have stop: "\<exists>k\<le>length (cmd # pre).
           spawned (snd ?run) = spawned w @ (if dry_run eng then [] else map ?sh (take k (cmd # pre)))
         \<and> (case fst ?run of Inl e \<Rightarrow> e = EOFError | Inr (Returned r) \<Rightarrow> \<not> res_success r
             | Inr (Finished r) \<Rightarrow> False)"
    if "?run = (x, w')" and "spawned w' = spawned w"
      and "case x of Inl e \<Rightarrow> e = EOFError | Inr (Returned r) \<Rightarrow> \<not> res_success r
             | Inr (Finished r) \<Rightarrow> False" for x w'
    unfolding that(1) using that(2,3) by (intro exI[of _ 0]) simp
  show ?case
  proof (cases "fst (validate_command cmd)")
    case False
    have "?run = (Inr (Returned (failure (''Validation failed: '' @ snd (validate_command cmd)) 0
                     (clock env w))),
                  record_step env sid step ''failed''
                    (failure (''Validation failed: '' @ snd (validate_command cmd)) 0 (clock env w)) w)"
      using False by (simp add: Let_def)
    then show ?thesis by (rule stop) (simp_all add: failure_def)
  next
    case True
    note nonblank = validate_accepts_nonblank[OF True]
    obtain cf w1 where cs: "confirm_step eng step w = (cf, w1)" by (cases "confirm_step eng step w")
    then have s1: "spawned w1 = spawned w" using confirm_step_spawned[of eng step w] by simp
    show ?thesis
    proof (cases cf)
      case (Inl e)
      with cs confirm_step_error[of eng step w e] have e: "e = EOFError" by simp
      have "?run = (Inl e, w1)" using True cs Inl by simp
      then show ?thesis by (rule stop) (simp_all add: s1 e)
    next
      case (Inr go)
      show ?thesis
      proof (cases go)
        case False
        have "?run = (Inr (Returned (failure ''User cancelled'' 0 (clock env w1))),
                      record_step env sid step ''cancelled''
                        (failure ''User cancelled'' 0 (clock env w1)) w1)"
          using True cs Inr False by (simp add: Let_def)
        then show ?thesis by (rule stop) (simp_all add: s1 failure_def)
      next
        case go: True
        obtain r w2 where rs: "run_or_dry env eng cmd t w1 = (r, w2)"
          by (cases "run_or_dry env eng cmd t w1")
        from run_or_dry_shell[OF nonblank, of env eng t w1] rs s1
        obtain result where res: "r = Inr result"
          and s2: "spawned w2 = spawned w @ (if dry_run eng then [] else [?sh cmd])" by auto
        show ?thesis
        proof (cases "res_success result")
          case False
          have run: "?run = (Inr (Returned result), record_step env sid step ''failed'' result w2)"
            using True cs Inr go rs res False by simp
          show ?thesis
            unfolding run by (intro exI[of _ "Suc 0"]) (simp add: s2 False)
        next
          case ok: True
          have run: "?run = command_loop env eng sid step t (pre @ c # post) (Some result) w2"
            using True cs Inr go rs res ok by simp
          from Cons.IH[of "Some result" w2] obtain k where k: "k \<le> length pre"
            "spawned (snd (command_loop env eng sid step t (pre @ c # post) (Some result) w2))
               = spawned w2 @ (if dry_run eng then [] else map ?sh (take k pre))"
            "case fst (command_loop env eng sid step t (pre @ c # post) (Some result) w2) of
               Inl e \<Rightarrow> e = EOFError | Inr (Returned r) \<Rightarrow> \<not> res_success r
             | Inr (Finished r) \<Rightarrow> False" by blast
          show ?thesis
            unfolding run using k s2 by (intro exI[of _ "Suc k"]) simp
        qed
      qed
    qed
  qed
qed


text \<open>
  An empty \<^verbatim>\<open>command\<close> field counts as absent: with no \<^verbatim>\<open>commands\<close> either, the step has
  nothing to validate and is recorded as completed.
\<close>

lemma empty_command_field_completes:
  assumes "active_session eng = Some sid"
    and "st_command step = Some []" and "st_commands step = []"
  shows "fst (execute_step env eng step t w)
           = Inr \<lparr> res_success = True, res_returncode = 0, res_stdout = [], res_stderr = [],
                   res_duration_ms = 0, res_timestamp = clock env w \<rparr>"
    and "spawned (snd (execute_step env eng step t w)) = spawned w"
  using assms by (simp_all add: execute_step_def step_commands_def Let_def)

text \<open>
  Without \<open>can_auto_retry\<close>, or in dry-run mode, the recovery block runs nothing and the plan
  halts.
\<close>

lemma recover_gate:
  assumes "active_session eng = Some sid"
    and "analyze_error (recovery_client env) (recovery_command step) (res_stdout result)
           (res_stderr result) (step_context step step_num sid) = Inr analysis"
    and "is_dict analysis"
    and "\<not> truthy (dict_get analysis ''can_auto_retry'') \<or> dry_run eng"
  shows "recover env eng step step_num result w = (Inr None, w)"
  using assms by (auto simp: recover_def)

section \<open>Runs of the engine\<close>

lemmas engine_eval = execute_plan_def execute_step_def recover_def spawn_process_def
  record_step_def confirm_step_def run_or_dry_def verify_step_def read_input_def
  active_session_def step_commands_def step_number_or_def step_name_or_def
  completed_at_start_def get_completed_steps_def update_step_def complete_session_def
  create_session_def init_db_def new_rowid_def effective_timeout_def failure_def
  example_env_def example_engine_def example_proc_def plain_step_def fresh_world_def Let_def

lemma valid_echo:
  "fst (validate_command ''echo 1'')" "fst (validate_command ''echo 2'')"
  "fst (validate_command ''echo 3'')" "fst (validate_command ''echo hi'')"
  "fst (validate_command ''curl http://x'')"
  by (simp_all add: validate_command_def DANGEROUS_PATTERNS_def strip_def is_space_def str_eval)

lemma strip_echo:
  "strip ''echo 1'' \<noteq> []" "strip ''echo 2'' \<noteq> []" "strip ''echo 3'' \<noteq> []"
  "strip ''echo hi'' \<noteq> []" "strip ''curl http://x'' \<noteq> []"
  "strip ''Check internet connection and retry'' \<noteq> []"
  "strip ''   '' = []" "lower (strip ''y'') = ''y''"
  by (simp_all add: strip_def is_space_def lower_def lower_char_if)

text \<open>
  The deny-list is compared with the lowered command, so its two patterns that contain the
  upper-case \<open>R\<close> never match: \<^verbatim>\<open>chmod -R 777 /\<close> passes validation.
\<close>

lemma uppercase_pattern_never_matches:
  "validate_command ''chmod -R 777 /'' = (True, ''OK'')"
  by (simp add: validate_command_def DANGEROUS_PATTERNS_def strip_def is_space_def str_eval)

lemma rejected_upper:
  "list_ex (\<lambda>p. lower p = p \<and> str_in (lower p) (lower ''RM -RF /home'')) DANGEROUS_PATTERNS"
proof -
  have "''rm -rf /'' \<in> set DANGEROUS_PATTERNS" by (simp add: DANGEROUS_PATTERNS_def)
  moreover have "lower ''rm -rf /'' = ''rm -rf /''" by (simp add: lower_def lower_char_if)
  moreover have "str_in ''rm -rf /'' (lower ''RM -RF /home'')" by (simp add: str_eval)
  ultimately show ?thesis unfolding list_ex_iff by (intro bexI[of _ "''rm -rf /''"]) simp_all
qed

lemma validate_upper:
  "validate_command ''RM -RF /home'' = (False, ''Command contains dangerous pattern: rm -rf /'')"
  by (simp add: validate_command_def DANGEROUS_PATTERNS_def strip_def is_space_def str_eval)

lemma validate_blank: "validate_command ''   '' = (False, ''Empty command'')"
  by (simp add: validate_command_def strip_echo)

lemma unsafe_run:
  "execute_step example_env example_engine unsafe_step 300 fresh_world =
     (Inr (failure ''Validation failed: Command contains dangerous pattern: rm -rf /'' 0 ''t''),
      record_step example_env ''s1'' unsafe_step ''failed''
        (failure ''Validation failed: Command contains dangerous pattern: rm -rf /'' 0 ''t'')
        (fresh_world\<lparr> spawned := [Shell ''echo hi'' 300] \<rparr>))"
  by (simp add: engine_eval unsafe_step_def valid_echo strip_echo validate_upper)




lemma resumed_run:
  "entered (snd (execute_plan example_env example_engine three_steps 0 resumed_world)) = [2, 3]"
  by (simp add: engine_eval three_steps_def resumed_world_def valid_echo strip_echo enumerate_eq_zip)

theorem C3_resume_idempotence_witness:
  "active_session example_engine = Some ''s1''
   \<and> get_completed_steps (store resumed_world) ''s1'' = [1]
   \<and> entered resumed_world = []
   \<and> entered (snd (execute_plan example_env example_engine three_steps 0 resumed_world)) = [2, 3]
   \<and> (\<exists>xs. entered (snd (execute_plan example_env example_engine three_steps 0 resumed_world))
               = entered resumed_world @ xs
            \<and> set xs \<inter> set (get_completed_steps (store resumed_world) ''s1'') = {})"
proof -
  have h: "active_session example_engine = Some ''s1''"
    by (simp add: active_session_def example_engine_def)
  have c: "get_completed_steps (store resumed_world) ''s1'' = [1]"
    by (simp add: resumed_world_def fresh_world_def get_completed_steps_def update_step_def
        create_session_def init_db_def)
  have e: "entered resumed_world = []" by (simp add: resumed_world_def fresh_world_def)
  from C3_resume_idempotence[OF h, of example_env three_steps 0 resumed_world] h c e resumed_run
  show ?thesis by (intro conjI)
qed

lemma fallback_could_not_resolve:
  assumes "str_in ''could not resolve host'' (lower (stderr @ stdout))"
    and "\<not> str_in ''command not found'' (lower (stderr @ stdout))"
    and "\<not> str_in ''permission denied'' (lower (stderr @ stdout))"
  shows "fallback_analyze command stdout stderr =
           diagnosis (''Detected '' @ [CHR 0x27] @ ''could not resolve host'' @ [CHR 0x27] @ '' error'')
             ''medium'' ''Check internet connection and retry'' ''retry'' [] True
             (''The system couldn'' @ [CHR 0x27] @ ''t run the command because ''
                @ ''could not resolve host'' @ ''. '' @ ''Check internet connection and retry'' @ ''.'')"
  using assms by (simp add: fallback_analyze_def common_fixes_def Let_def)

lemma curl_analysis:
  "analyze_error None ''curl http://x'' [] ''curl: (6) Could not resolve host: x'' ctx =
   Inr (diagnosis (''Detected '' @ [CHR 0x27] @ ''could not resolve host'' @ [CHR 0x27] @ '' error'')
             ''medium'' ''Check internet connection and retry'' ''retry'' [] True
             (''The system couldn'' @ [CHR 0x27] @ ''t run the command because ''
                @ ''could not resolve host'' @ ''. '' @ ''Check internet connection and retry'' @ ''.''))"
proof -
  have k: "take MAX_LENGTH ''curl: (6) Could not resolve host: x'' = ''curl: (6) Could not resolve host: x''"
    "take MAX_LENGTH ''curl http://x'' = ''curl http://x''" "take MAX_LENGTH [] = ([]::string)"
    by (simp_all add: MAX_LENGTH_def)
  have t: "lower (''curl: (6) Could not resolve host: x'' @ []) = ''curl: (6) could not resolve host: x''"
    by (simp add: lower_def lower_char_if)
  have s: "str_in ''could not resolve host'' ''curl: (6) could not resolve host: x''"
    "\<not> str_in ''command not found'' ''curl: (6) could not resolve host: x''"
    "\<not> str_in ''permission denied'' ''curl: (6) could not resolve host: x''"
    by (simp_all add: str_eval)
  show ?thesis
    unfolding analyze_error_no_client k
    using fallback_could_not_resolve[of "''curl: (6) Could not resolve host: x''" "[]" "''curl http://x''"] s
    unfolding t by (simp only: simp_thms)
qed

text \<open>
  C2. A step fails because its host cannot be resolved; no classifier is configured, dry-run is
  off and the user accepts the prompt. The analysis has \<open>can_auto_retry\<close> with fix type
  \<open>retry\<close>, not \<open>modify_command\<close>, and its suggested fix, a sentence for the user, is
  spawned as a shell command all the same.
\<close>

theorem C2_fix_runs_for_retry_type:
  "field (analyze_error None ''curl http://x'' [] ''curl: (6) Could not resolve host: x''
            (step_context curl_step 1 ''s1'')) ''fix_type'' = Some (JStr ''retry'')
   \<and> field (analyze_error None ''curl http://x'' [] ''curl: (6) Could not resolve host: x''
            (step_context curl_step 1 ''s1'')) ''suggested_fix''
       = Some (JStr ''Check internet connection and retry'')
   \<and> dry_run example_engine = False
   \<and> spawned answering_world = []
   \<and> spawned (snd (execute_plan example_env example_engine [curl_step] 0 answering_world))
       = [Shell ''curl http://x'' 300, Shell ''Check internet connection and retry'' 60]"
proof -
  have a: "field (analyze_error None ''curl http://x'' [] ''curl: (6) Could not resolve host: x''
            (step_context curl_step 1 ''s1'')) ''fix_type'' = Some (JStr ''retry'')"
    "field (analyze_error None ''curl http://x'' [] ''curl: (6) Could not resolve host: x''
            (step_context curl_step 1 ''s1'')) ''suggested_fix''
       = Some (JStr ''Check internet connection and retry'')"
    unfolding curl_analysis by (simp_all add: field_def diagnosis_def)
  have d: "dry_run example_engine = False" by (simp add: example_engine_def)
  have w: "spawned answering_world = []" by (simp add: answering_world_def fresh_world_def)
  have run: "spawned (snd (execute_plan example_env example_engine [curl_step] 0 answering_world))
       = [Shell ''curl http://x'' 300, Shell ''Check internet connection and retry'' 60]"
    by (simp add: engine_eval recovery_command_def curl_analysis curl_step_def answering_world_def
        valid_echo strip_echo diagnosis_def get_or_null_def)
  from a d w run show ?thesis by (intro conjI)
qed

section \<open>The rollback log\<close>

lemma copytree_frame [simp]:
  "rollback_log (snd (copytree env src dst ok w)) = rollback_log w"
  "backup_points (snd (copytree env src dst ok w)) = backup_points w"
  "console (snd (copytree env src dst ok w)) = console w"
  by (simp_all add: copytree_def split: option.splits)

lemma rmtree_frame [simp]:
  "rollback_log (snd (rmtree env p w)) = rollback_log w"
  "backup_points (snd (rmtree env p w)) = backup_points w"
  by (simp_all add: rmtree_def split: option.splits)

lemma copy2_frame [simp]:
  "rollback_log (snd (copy2 env src dst w)) = rollback_log w"
  "backup_points (snd (copy2 env src dst w)) = backup_points w"
  "dirs (snd (copy2 env src dst w)) = dirs w"
  by (simp_all add: copy2_def split: option.splits)

lemma run_argv_frame [simp]:
  "rollback_log (snd (run_argv env argv w)) = rollback_log w"
  "backup_points (snd (run_argv env argv w)) = backup_points w"
  "dirs (snd (run_argv env argv w)) = dirs w"
  by (simp_all add: run_argv_def)

lemma docker_call_frame [simp]:
  "rollback_log (snd (docker_call env verb service w)) = rollback_log w"
  "backup_points (snd (docker_call env verb service w)) = backup_points w"
  "dirs (snd (docker_call env verb service w)) = dirs w"
  by (simp_all add: docker_call_def split: option.splits)

lemma service_frame [simp]:
  "rollback_log (snd (stop_service env service w)) = rollback_log w"
  "rollback_log (snd (remove_service env service w)) = rollback_log w"
  "rollback_log (snd (start_service env service w)) = rollback_log w"
  "dirs (snd (stop_service env service w)) = dirs w"
  "dirs (snd (remove_service env service w)) = dirs w"
  "dirs (snd (start_service env service w)) = dirs w"
  by (simp_all add: stop_service_def remove_service_def start_service_def)

lemma stop_remove_loop_log [simp]:
  "rollback_log (stop_remove_loop env services w) = rollback_log w"
proof (induction services arbitrary: w)
  case Nil
  show ?case by simp
next
  case (Cons service services)
  obtain r w1 where s: "stop_service env service w = (r, w1)" by (cases "stop_service env service w")
  then have f: "rollback_log w1 = rollback_log w"
    using service_frame(1)[of env service w] by simp
  show ?case
  proof (cases r)
    case (Inl e)
    then show ?thesis using s f Cons.IH[of w1] by simp
  next
    case (Inr u)
    then show ?thesis using s f Cons.IH[of "snd (remove_service env service w1)"] by simp
  qed
qed

lemma stop_remove_loop_dirs [simp]:
  "dirs (stop_remove_loop env services w) = dirs w"
proof (induction services arbitrary: w)
  case Nil
  show ?case by simp
next
  case (Cons service services)
  obtain r w1 where s: "stop_service env service w = (r, w1)" by (cases "stop_service env service w")
  then have f: "dirs w1 = dirs w"
    using service_frame(4)[of env service w] by simp
  show ?case
  proof (cases r)
    case (Inl e)
    then show ?thesis using s f Cons.IH[of w1] by simp
  next
    case (Inr u)
    then show ?thesis using s f Cons.IH[of "snd (remove_service env service w1)"] by simp
  qed
qed

lemma restore_config_frame [simp]:
  "rollback_log (restore_config env config_path w) = rollback_log w"
  "dirs (restore_config env config_path w) = dirs w"
  by (simp_all add: restore_config_def split: option.splits)

lemma restore_data_log [simp]:
  "rollback_log (snd (restore_data env service snapshot w)) = rollback_log w"
proof (cases "get_service_data_path env service")
  case None
  then show ?thesis by (simp add: restore_data_def)
next
  case (Some p)
  obtain r w1 where rm: "rmtree env p w = (r, w1)" by (cases "rmtree env p w")
  then have f1: "rollback_log w1 = rollback_log w" using rmtree_frame(1)[of env p w] by simp
  obtain r' w2 where c1: "copytree env snapshot p False w1 = (r', w2)"
    by (cases "copytree env snapshot p False w1")
  then have f2: "rollback_log w2 = rollback_log w1"
    using copytree_frame(1)[of env snapshot p False w1] by simp
  obtain r'' w3 where c2: "copytree env snapshot p False w = (r'', w3)"
    by (cases "copytree env snapshot p False w")
  then have f3: "rollback_log w3 = rollback_log w"
    using copytree_frame(1)[of env snapshot p False w] by simp
  show ?thesis
    using Some rm f1 c1 f2 c2 f3
    by (cases r; cases r'; cases r'') (simp_all add: restore_data_def)
qed

lemma restore_data_loop_log [simp]:
  "rollback_log (snd (snd (restore_data_loop env data_paths services n failed w))) = rollback_log w"
proof (induction services arbitrary: n failed w)
  case Nil
  show ?case by simp
next
  case (Cons service services)
  show ?case
  proof (cases "map_of data_paths service")
    case None
    then show ?thesis using Cons by simp
  next
    case (Some snapshot)
    obtain r w1 where rd: "restore_data env service snapshot w = (r, w1)"
      by (cases "restore_data env service snapshot w")
    then have "rollback_log w1 = rollback_log w"
      using restore_data_log[of env service snapshot w] by simp
    then show ?thesis using Some rd Cons by (cases r) simp_all
  qed
qed

lemma restart_loop_log [simp]:
  "rollback_log (snd (restart_loop env services failed w)) = rollback_log w"
proof (induction services arbitrary: failed w)
  case Nil
  show ?case by simp
next
  case (Cons service services)
  obtain r w1 where s: "start_service env service w = (r, w1)" by (cases "start_service env service w")
  then have "rollback_log w1 = rollback_log w" using service_frame(3)[of env service w] by simp
  then show ?case using s Cons by (cases r) simp_all
qed

lemma perform_rollback_log:
  "\<exists>entry. rollback_log (snd (perform_rollback env row backup_id w)) = rollback_log w @ [entry]
      \<and> log_backup_id entry = backup_id
      \<and> log_success entry = (log_failed entry = [])
      \<and> fst (fst (perform_rollback env row backup_id w)) = log_success entry"
  by (simp add: perform_rollback_def Let_def)



lemma backed_up_world_eq:
  "backed_up_world =
     \<lparr> dirs = [''/home/u/.openclaw'' \<mapsto> [''state.json'' \<mapsto> ''v1''],
               ''/home/u/.home-server/backups/backup_20240101_120000/openclaw_data''
                 \<mapsto> [''state.json'' \<mapsto> ''v1'']],
       files = Map.empty,
       backup_points =
         [\<lparr> bp_backup_id = ''backup_20240101_120000'', bp_timestamp = ''2024-01-01T12:00:00'',
             bp_description = ''before'', bp_services = [''openclaw''],
             bp_config_backup_path = None,
             bp_data_backup_paths =
               [(''openclaw'',
                 ''/home/u/.home-server/backups/backup_20240101_120000/openclaw_data'')],
             bp_created_at = ''2024-01-01T12:00:00'' \<rparr>],
       rollback_log = [], console = [''y''], service_calls = [] \<rparr>"
  by (simp add: backed_up_world_def create_backup_def calm_env_def openclaw_world_def
      path_exists_def get_service_data_path_def copytree_def is_docker_service_def Let_def)

lemma create_backup_calm:
  "create_backup calm_env [''openclaw''] ''before'' openclaw_world
     = (Inr ''backup_20240101_120000'', backed_up_world)"
  unfolding backed_up_world_eq
  by (simp add: create_backup_def calm_env_def openclaw_world_def
      path_exists_def get_service_data_path_def copytree_def is_docker_service_def Let_def)



section \<open>Backup and restore\<close>

lemma data_path_nonempty: "get_service_data_path env service = Some p \<Longrightarrow> p \<noteq> []"
  by (auto simp: get_service_data_path_def split: if_splits)

lemma container_key_differs: "service @ ''_container'' \<noteq> service"
proof
  assume "service @ ''_container'' = service"
  then have "length (service @ ''_container'') = length service" by simp
  then show False by simp
qed

lemma backup_docker_container_dirs [simp]:
  "dirs (snd (backup_docker_container env service out w)) = dirs w"
  by (simp add: backup_docker_container_def Let_def split: option.splits)

lemma backup_container_loop_single:
  "dirs (snd (backup_container_loop env bp [service] data_paths w)) = dirs w"
  "map_of data_paths service = Some snap \<Longrightarrow>
     map_of (fst (backup_container_loop env bp [service] data_paths w)) service = Some snap"
proof -
  obtain r w1 where b: "backup_docker_container env service (bp @ ''/'' @ service @ ''_container.tar'') w = (r, w1)"
    by (cases "backup_docker_container env service (bp @ ''/'' @ service @ ''_container.tar'') w")
  then have d: "dirs w1 = dirs w"
    using backup_docker_container_dirs[of env service "bp @ ''/'' @ service @ ''_container.tar''" w] by simp
  show "dirs (snd (backup_container_loop env bp [service] data_paths w)) = dirs w"
    using b d by (cases r) simp_all
  have m: "map_of (dict_set kvs k v) k' = map_of kvs k'" if "k \<noteq> k'" for kvs :: "(string \<times> string) list" and k v k'
    using that by (induction kvs) auto
  show "map_of (fst (backup_container_loop env bp [service] data_paths w)) service = Some snap"
    if "map_of data_paths service = Some snap"
    using b that m[OF container_key_differs[of service]] by (cases r) simp_all
qed

lemma create_backup_single:
  assumes nf: "\<And>w op. fs_fault env w op = None"
    and p: "get_service_data_path env service = Some p"
    and ex: "dirs w p = Some tr"
    and ok: "create_backup env [service] description w = (Inr backup_id, w1)"
    and fresh: "dirs w (snapshot_path env backup_id service) = None"
  shows "dirs w1 = (dirs w)(snapshot_path env backup_id service \<mapsto> tr)"
    and "\<exists>row. find (\<lambda>r. bp_backup_id r = backup_id) (backup_points w1) = Some row
           \<and> bp_services row = [service]
           \<and> map_of (bp_data_backup_paths row) service = Some (snapshot_path env backup_id service)"
proof -
  define bid where "bid = ''backup_'' @ rb_stamp env w"
  define bp where "bp = rb_backup_dir env @ ''/'' @ bid"
  have snap: "snapshot_path env bid service = bp @ ''/'' @ service @ ''_data''"
    by (simp add: snapshot_path_def bp_def)
  obtain cfg w0 where c0: "(if path_exists w ''config.json''
                    then (case copy2 env ''config.json'' (bp @ ''/config.json'') w of
                            (Inl e, w1) \<Rightarrow> (Inl e, w1)
                          | (Inr u, w1) \<Rightarrow> (Inr (Some (bp @ ''/config.json'')), w1))
                    else (Inr None, w)) = (cfg, w0)" by fastforce
  have d0: "dirs w0 = dirs w" and b0: "backup_points w0 = backup_points w"
  proof -
    obtain r wc where c: "copy2 env ''config.json'' (bp @ ''/config.json'') w = (r, wc)"
      by (cases "copy2 env ''config.json'' (bp @ ''/config.json'') w")
    then have "dirs wc = dirs w" "backup_points wc = backup_points w"
      using copy2_frame(2,3)[of env "''config.json''" "bp @ ''/config.json''" w] by simp_all
    with c c0 show "dirs w0 = dirs w" "backup_points w0 = backup_points w"
      by (cases r; auto split: if_splits)+
  qed
  let ?dlw = "\<lambda>w'. backup_data_loop env bp [service] [] w'"
  let ?clw = "\<lambda>w'. backup_container_loop env bp [service] (fst (?dlw w')) (snd (?dlw w'))"
  have ok': "(case (cfg, w0) of
                (Inl e, w') \<Rightarrow> (Inl e, w')
              | (Inr config_backup, w') \<Rightarrow>
                  (if bid \<in> set (map bp_backup_id (backup_points (snd (?clw w'))))
                   then (Inl IntegrityError, snd (?clw w'))
                   else (Inr bid,
                         (snd (?clw w'))\<lparr> backup_points := backup_points (snd (?clw w'))
                                  @ [\<lparr> bp_backup_id = bid, bp_timestamp = rb_now env w,
                                       bp_description = description, bp_services = [service],
                                       bp_config_backup_path = config_backup,
                                       bp_data_backup_paths = fst (?clw w'),
                                       bp_created_at = rb_now env w \<rparr>] \<rparr>)))
             = (Inr backup_id, w1)"
    unfolding c0[symmetric] bid_def bp_def
    using ok[unfolded create_backup_def Let_def nf option.case] by simp
  from ok' obtain config_backup where cfg: "cfg = Inr config_backup"
    by (cases cfg) auto
  let ?dl = "backup_data_loop env bp [service] [] w0"
  let ?cl = "backup_container_loop env bp [service] (fst ?dl) (snd ?dl)"
  have res: "backup_id = bid"
      "backup_points w1 = backup_points (snd ?cl) @ [\<lparr> bp_backup_id = bid, bp_timestamp = rb_now env w,
                                       bp_description = description, bp_services = [service],
                                       bp_config_backup_path = config_backup,
                                       bp_data_backup_paths = fst ?cl,
                                       bp_created_at = rb_now env w \<rparr>]"
      "dirs w1 = dirs (snd ?cl)"
      "bid \<notin> set (map bp_backup_id (backup_points (snd ?cl)))"
    using ok' unfolding cfg by (auto split: if_splits)
  have pe: "p \<noteq> [] \<and> path_exists w0 p" using data_path_nonempty[OF p] ex d0 by (simp add: path_exists_def)
  have fr: "dirs w0 (bp @ ''/'' @ service @ ''_data'') = None"
    using fresh d0 unfolding res(1) snap by simp
  have dl: "?dl = ([(service, bp @ ''/'' @ service @ ''_data'')],
                   w0\<lparr> dirs := (dirs w0)(bp @ ''/'' @ service @ ''_data'' \<mapsto> tr) \<rparr>)"
    using p pe fr ex d0 nf by (simp add: copytree_def)
  have m: "map_of (fst ?dl) service = Some (bp @ ''/'' @ service @ ''_data'')"
    unfolding dl by simp
  note cl = backup_container_loop_single[where env=env and bp=bp and service=service
      and data_paths="fst ?dl" and w="snd ?dl"]
  show "dirs w1 = (dirs w)(snapshot_path env backup_id service \<mapsto> tr)"
    unfolding res(3) cl(1) unfolding dl res(1) snap using d0 by simp
  have f: "find (\<lambda>r. bp_backup_id r = bid) (rows @ [x]) = Some x"
    if "bid \<notin> set (map bp_backup_id rows)" "bp_backup_id x = bid" for rows x
    using that by (induction rows) auto
  show "\<exists>row. find (\<lambda>r. bp_backup_id r = backup_id) (backup_points w1) = Some row
           \<and> bp_services row = [service]
           \<and> map_of (bp_data_backup_paths row) service = Some (snapshot_path env backup_id service)"
    unfolding res(1) res(2) snap using f[OF res(4)] cl(2)[OF m] by simp
qed


lemma data_path_not_config:
  assumes "get_service_data_path env service = Some p"
  shows "p \<noteq> ''config.json''"
proof -
  have "CHR ''/'' \<in> set p"
    using assms by (auto simp: get_service_data_path_def split: if_splits)
  moreover have "CHR ''/'' \<notin> set ''config.json''" by simp
  ultimately show ?thesis by blast
qed

lemma files_frame [simp]:
  "files (snd (run_argv env argv w)) = files w"
  "files (snd (docker_call env verb service w)) = files w"
  "files (snd (stop_service env service w)) = files w"
  "files (snd (remove_service env service w)) = files w"
  "files (snd (start_service env service w)) = files w"
  by (simp_all add: run_argv_def docker_call_def stop_service_def remove_service_def
      start_service_def split: option.splits)

lemma stop_remove_loop_files [simp]:
  "files (stop_remove_loop env services w) = files w"
proof (induction services arbitrary: w)
  case Nil
  show ?case by simp
next
  case (Cons service services)
  obtain r w1 where s: "stop_service env service w = (r, w1)" by (cases "stop_service env service w")
  then have f: "files w1 = files w"
    using files_frame(3)[of env service w] by simp
  show ?case
  proof (cases r)
    case (Inl e)
    then show ?thesis using s f Cons.IH[of w1] by simp
  next
    case (Inr u)
    then show ?thesis using s f Cons.IH[of "snd (remove_service env service w1)"] by simp
  qed
qed

lemma restore_config_files:
  "p \<noteq> ''config.json'' \<Longrightarrow> files (restore_config env config_path w) p = files w p"
  by (simp add: restore_config_def copy2_def split: option.splits)

lemma restart_loop_dirs [simp]:
  "dirs (snd (restart_loop env services failed w)) = dirs w"
proof (induction services arbitrary: failed w)
  case Nil
  show ?case by simp
next
  case (Cons service services)
  obtain r w1 where s: "start_service env service w = (r, w1)" by (cases "start_service env service w")
  then have "dirs w1 = dirs w" using service_frame(6)[of env service w] by simp
  then show ?case using s Cons by (cases r) simp_all
qed

lemma restore_data_ok:
  assumes nf: "\<And>w op. fs_fault env w op = None"
    and p: "get_service_data_path env service = Some p"
    and sn: "dirs w snap = Some tr"
    and ne: "snap \<noteq> p"
    and nofile: "dirs w p = None \<longrightarrow> files w p = None"
  shows "dirs (snd (restore_data env service snap w)) p = Some tr"
proof (cases "dirs w p")
  case None
  with nofile have "\<not> path_exists w p" by (simp add: path_exists_def)
  then show ?thesis
    using p data_path_nonempty[OF p] None sn nf by (simp add: restore_data_def copytree_def)
next
  case (Some old)
  then have "path_exists w p" by (simp add: path_exists_def)
  then show ?thesis
    using p data_path_nonempty[OF p] Some sn ne nf
    by (simp add: restore_data_def copytree_def rmtree_def)
qed

lemma rollback_restores:
  assumes nf: "\<And>w op. fs_fault env w op = None"
    and p: "get_service_data_path env service = Some p"
    and row: "find (\<lambda>r. bp_backup_id r = backup_id) (backup_points w) = Some row"
    and sv: "bp_services row = [service]"
    and dp: "map_of (bp_data_backup_paths row) service = Some snap"
    and sn: "dirs w snap = Some tr"
    and ne: "snap \<noteq> p"
    and nofile: "dirs w p = None \<longrightarrow> files w p = None"
    and cf: "confirm \<longrightarrow> (\<exists>rest. console w = line # rest \<and> lower (strip line) = ''y'')"
  shows "dirs (snd (rollback env backup_id confirm w)) p = Some tr"
proof -
  define w0 where "w0 = (if confirm then w\<lparr> console := tl (console w) \<rparr> else w)"
  have r: "snd (rollback env backup_id confirm w) = snd (perform_rollback env row backup_id w0)"
    using row cf by (auto simp: rollback_def w0_def)
  have f0: "dirs w0 = dirs w" "files w0 = files w" by (simp_all add: w0_def)
  define w2 where "w2 = restore_config env (bp_config_backup_path row)
                          (stop_remove_loop env [service] w0)"
  have d2: "dirs w2 = dirs w"
    by (simp add: w2_def f0 del: stop_remove_loop.simps)
  have f2: "files w2 p = files w p"
    using restore_config_files[OF data_path_not_config[OF p]]
    by (simp add: w2_def f0 del: stop_remove_loop.simps)
  obtain rr w3 where rd: "restore_data env service snap w2 = (rr, w3)"
    by (cases "restore_data env service snap w2")
  have d3: "dirs w3 p = Some tr"
    using restore_data_ok[OF nf p, of w2 snap tr] sn ne nofile d2 f2 rd by simp
  have loop: "snd (snd (restore_data_loop env (bp_data_backup_paths row) [service] 0 [] w2)) = w3"
    using dp rd by (cases rr) simp_all
  have "dirs (snd (perform_rollback env row backup_id w0)) p = dirs w3 p"
    unfolding perform_rollback_def Let_def sv w2_def[symmetric]
    by (simp add: loop del: restart_loop.simps restore_data_loop.simps stop_remove_loop.simps)
  with r d3 show ?thesis by simp
qed




end
